theory Spec2Isabelle
  imports Main "HOL-Library.Sublist"
begin

section \<open>Strings\<close>

text \<open>
  A JavaScript string is modelled as a \<^typ>\<open>string\<close>, one \<^typ>\<open>char\<close> per code unit.
  \<open>toLowerCase\<close> is modelled on the ASCII letters, which is where the keywords of the
  mode allocation live; \<open>includes_str\<close> is \<open>String.prototype.includes\<close>, and
  \<open>take n\<close> is \<open>slice(0, n)\<close>.
\<close>

definition toLowerCase :: "string \<Rightarrow> string" where
  "toLowerCase s =
     map (\<lambda>c. if 65 \<le> (of_char c :: nat) \<and> (of_char c :: nat) \<le> 90
              then char_of ((of_char c :: nat) + 32) else c) s"

fun startsWith :: "string \<Rightarrow> string \<Rightarrow> bool" where
  "startsWith s [] = True"
| "startsWith [] (k # ks) = False"
| "startsWith (c # cs) (k # ks) = (c = k \<and> startsWith cs ks)"

fun includes_str :: "string \<Rightarrow> string \<Rightarrow> bool" where
  "includes_str [] k = (k = [])"
| "includes_str (c # cs) k = (startsWith (c # cs) k \<or> includes_str cs k)"

section \<open>The content plan\<close>

text \<open>
  A post and a plan as the schema of \<open>promptPlan\<close> gives them. The fields that the code
  reads defensively (\<open>p.angle || ""\<close>, \<open>planJson?.plan?.posts || []\<close>) are optional;
  \<open>visual_mode\<close> is \<open>None\<close> on a post that carries no tag.
\<close>

record post =
  post_id :: string
  post_type :: string
  topic :: string
  angle :: "string option"
  visual_mode :: "string option"

record plan_body =
  posts :: "post list option"

record plan_json =
  plan :: "plan_body option"

definition posts_of :: "plan_json \<Rightarrow> post list" where
  \<comment> \<open>\<open>planJson?.plan?.posts || []\<close>\<close>
  "posts_of planJson =
     (case plan planJson of
        None \<Rightarrow> []
      | Some b \<Rightarrow> (case posts b of None \<Rightarrow> [] | Some ps \<Rightarrow> ps))"

definition with_posts :: "plan_json \<Rightarrow> post list \<Rightarrow> plan_json" where
  \<comment> \<open>the plan after its post objects have been mutated in place\<close>
  "with_posts planJson ps =
     (case plan planJson of
        None \<Rightarrow> planJson
      | Some b \<Rightarrow> planJson\<lparr>plan := Some (b\<lparr>posts := Some ps\<rparr>)\<rparr>)"

section \<open>Mixed mode allocation\<close>

definition is_promotional :: "post \<Rightarrow> bool" where
  "is_promotional p = (post_type p = ''promotional'')"

definition is_productish :: "post \<Rightarrow> bool" where
  "is_productish p =
     (let t = toLowerCase (topic p @ '' '' @ (case angle p of None \<Rightarrow> [] | Some a \<Rightarrow> a))
      in includes_str t ''product'' \<or>
         includes_str t ''offer'' \<or>
         includes_str t ''pricing'' \<or>
         includes_str t ''launch'' \<or>
         includes_str t ''features'')"

text \<open>The three loops over \<open>chosen\<close>: the first pushes every element, the other two push
  only while \<open>chosen.length < 4\<close>.\<close>

fun push_all :: "post list \<Rightarrow> post list \<Rightarrow> post list" where
  "push_all chosen [] = chosen"
| "push_all chosen (p # ps) = push_all (chosen @ [p]) ps"

fun push_below4 :: "post list \<Rightarrow> post list \<Rightarrow> post list" where
  "push_below4 chosen [] = chosen"
| "push_below4 chosen (p # ps) =
     push_below4 (if length chosen < 4 then chosen @ [p] else chosen) ps"

definition chosen_posts :: "post list \<Rightarrow> post list" where
  "chosen_posts ps =
     (let promo = filter is_promotional ps;
          remaining = filter (\<lambda>p. \<not> is_promotional p) ps;
          productish = filter is_productish remaining
      in push_below4 (push_below4 (push_all [] promo) productish) remaining)"

definition chosenIds :: "post list \<Rightarrow> string list" where
  \<comment> \<open>\<open>new Set(chosen.slice(0, 4).map((p) => p.id))\<close>, kept as the list of its members\<close>
  "chosenIds ps = map post_id (take 4 (chosen_posts ps))"

definition tag_post :: "string list \<Rightarrow> post \<Rightarrow> post" where
  "tag_post ids p =
     p\<lparr>visual_mode := Some (if post_id p \<in> set ids then ''product_model'' else ''editorial'')\<rparr>"

definition applyMixedMode :: "plan_json \<Rightarrow> plan_json" where
  "applyMixedMode planJson =
     (let ps = posts_of planJson
      in if ps = [] then planJson
         else with_posts planJson (map (tag_post (chosenIds ps)) ps))"

definition product_model_posts :: "plan_json \<Rightarrow> post list" where
  "product_model_posts planJson =
     filter (\<lambda>p. visual_mode p = Some ''product_model'') (posts_of planJson)"

text \<open>The priority classes as the specification words them: promotional posts, then
  keyword posts, then the posts of neither class, each in list order, cut at four.\<close>

definition spec_priority_fill :: "post list \<Rightarrow> post list" where
  "spec_priority_fill ps =
     take 4 (filter is_promotional ps @
             filter (\<lambda>p. \<not> is_promotional p \<and> is_productish p) ps @
             filter (\<lambda>p. \<not> is_promotional p \<and> \<not> is_productish p) ps)"

section \<open>Errors and the job record\<close>

text \<open>A thrown JavaScript \<open>Error\<close> is modelled by its message, which is all that the
  \<open>catch\<close> block of \<open>runJob\<close> reads.\<close>

datatype js_error = Error string

fun message :: "js_error \<Rightarrow> string" where
  "message (Error m) = m"

definition cannot_read :: "string \<Rightarrow> string \<Rightarrow> js_error" where
  \<comment> \<open>the \<open>TypeError\<close> of reading property \<open>field\<close> of \<open>undefined\<close> or of \<open>null\<close>\<close>
  "cannot_read what field =
     Error (''Cannot read properties of '' @ what @ '' (reading '' @ [CHR 0x27] @ field @
            [CHR 0x27] @ '')'')"

definition not_a_function :: "string \<Rightarrow> js_error" where
  "not_a_function what = Error (what @ '' is not a function'')"

text \<open>
  The campaign context is whatever \<open>JSON.parse\<close> made of the submitted text. What the
  job runner reads of it: the campaign, which may be missing or \<open>null\<close>, and the brand
  name, which may be missing (or another falsy value), a string, or a value that is not a
  string. The parsed value may itself be \<open>null\<close>; any other value that is not an object
  has no campaign and no name. A campaign that is neither missing nor \<open>null\<close> is a
  \<open>Campaign\<close>: its fields go into the prompt text only, whatever they hold.
\<close>

record campaign =
  month :: string
  posts_count :: int

datatype campaign_value = No_campaign | Null_campaign | Campaign campaign

datatype name_value = No_name | Name string | Not_a_string

record brand_context =
  campaign :: campaign_value
  brand_name :: name_value

datatype input_value = Null_input | Input brand_context

record job =
  job_id :: string
  status :: string
  progress :: int
  input :: input_value
  createdAt :: nat
  error :: "string option"
  downloadUrl :: "string option"

text \<open>
  What a run of \<open>runJob\<close> does is logged: every assignment to a field of the job
  object (with the object after it), every external call it awaits (with the job object
  as any other request handler reads it while the run is suspended there), and every
  file it writes. File contents are not modelled, only the paths.
\<close>

datatype stage = Plan | Captions | Visuals

datatype call = ChatCall stage | ImageCall string

datatype event = Assigned job | Awaited call job | Wrote string

record run_state =
  job :: job
  disk :: "string set"
  trace :: "event list"

definition assign :: "(job \<Rightarrow> job) \<Rightarrow> run_state \<Rightarrow> run_state" where
  "assign f s = s\<lparr>job := f (job s), trace := trace s @ [Assigned (f (job s))]\<rparr>"

definition await :: "call \<Rightarrow> run_state \<Rightarrow> run_state" where
  "await c s = s\<lparr>trace := trace s @ [Awaited c (job s)]\<rparr>"

definition path_join :: "string \<Rightarrow> string \<Rightarrow> string" where
  \<comment> \<open>\<open>path.join\<close> on two segments that need no normalising (no \<open>.\<close>, \<open>..\<close> or separator)\<close>
  "path_join a b = a @ ''/'' @ b"

section \<open>The documents of a run\<close>

text \<open>
  A response text that parses gives some JSON value, not always one of the shape the
  prompt asks for. A plan is one of three kinds, by what the code does with
  \<open>planJson?.plan?.posts\<close>:
  \<^item> \<open>Plan_doc\<close>: the posts are absent (or another falsy value) or an array of objects; this
    is the plan of the sections above, where a field that holds a value of another kind
    is represented by a string that stands for that value;
  \<^item> \<open>Bad_entries\<close>: \<open>applyMixedMode\<close> throws on the posts: an array with a \<open>null\<close> entry
    (its property is read at line 100) or with an entry that is a number, a string or a
    boolean (the assignment of line 122 throws in a module), a string that is not empty,
    or an object with a \<open>length\<close> (neither has \<open>filter\<close>);
  \<^item> \<open>Not_a_list\<close>: another value (a number, \<open>true\<close>, an object whose \<open>length\<close> is missing
    or falsy), which \<open>applyMixedMode\<close> returns unchanged and on which \<open>posts.filter\<close> of
    line 364 throws.

  The visual briefs are usable, or line 358 throws on them: the document is \<open>null\<close>,
  \<open>editorial_visuals\<close> is a truthy value that is not an array, or the array has a \<open>null\<close>
  entry, which \<open>compileEditorialPrompt\<close> reads.
\<close>

datatype plan_doc = Plan_doc plan_json | Bad_entries js_error | Not_a_list js_error

record visual =
  visual_id :: string

record visuals_json =
  editorial_visuals :: "visual list option"

datatype visuals_doc = Visuals_doc visuals_json | Unusable_visuals js_error

fun applyMixedMode_doc :: "plan_doc \<Rightarrow> js_error + plan_doc" where
  \<comment> \<open>\<open>applyMixedMode\<close> on any parsed plan\<close>
  "applyMixedMode_doc (Plan_doc planJson) = Inr (Plan_doc (applyMixedMode planJson))"
| "applyMixedMode_doc (Bad_entries e) = Inl e"
| "applyMixedMode_doc (Not_a_list e) = Inr (Not_a_list e)"

section \<open>The environment\<close>

text \<open>
  The remote endpoints and the file system are the environment of a run. \<open>chat\<close> gives
  the outcome of the chat completion of each stage and \<open>images\<close> the outcome of the n-th
  image request: a rejection (\<open>Inl\<close>, which also stands for a response that cannot be
  read), or the returned content, which may be missing. \<open>fs\<close> says which operation on the
  output directory throws (\<open>ensureDir\<close> on a directory; \<open>writeFileSafe\<close> on a path, that
  is its \<open>ensureDir\<close> or its \<open>writeFileSync\<close>), and \<open>image_saves\<close> whether storing the
  n-th returned image throws (\<open>Buffer.from\<close>, \<open>ensureDir\<close> or \<open>writeFileSync\<close>).
  \<open>JSON.parse\<close> belongs to the runtime; it is a parameter, one per document, and gives
  \<open>None\<close> where it throws.
\<close>

datatype fs_op = Make_dir string | Write_file string

record 'c env =
  chat :: "stage \<Rightarrow> js_error + string option"
  images :: "nat \<Rightarrow> js_error + string option"
  image_saves :: "nat \<Rightarrow> js_error option"
  fs :: "fs_op \<Rightarrow> js_error option"
  parse_plan :: "string \<Rightarrow> plan_doc option"
  parse_captions :: "string \<Rightarrow> 'c option"
  parse_visuals :: "string \<Rightarrow> visuals_doc option"

definition ensureDir :: "'c env \<Rightarrow> string \<Rightarrow> run_state \<Rightarrow> js_error option \<times> run_state" where
  \<comment> \<open>\<open>Some e\<close> when it throws \<open>e\<close>; directories are not kept in the model of the disk\<close>
  "ensureDir env dir s = (fs env (Make_dir dir), s)"

definition writeFileSafe :: "'c env \<Rightarrow> string \<Rightarrow> run_state \<Rightarrow> js_error option \<times> run_state" where
  "writeFileSafe env filePath s =
     (case fs env (Write_file filePath) of
        Some e \<Rightarrow> (Some e, s)
      | None \<Rightarrow>
          (None, s\<lparr>disk := insert filePath (disk s), trace := trace s @ [Wrote filePath]\<rparr>))"

section \<open>The generation client\<close>

definition content_text :: "string option \<Rightarrow> string" where
  \<comment> \<open>\<open>resp.choices?.[0]?.message?.content ?? ""\<close>\<close>
  "content_text content = (case content of None \<Rightarrow> [] | Some t \<Rightarrow> t)"

definition parse_failed :: "string \<Rightarrow> js_error" where
  "parse_failed text = Error (''JSON parse failed. First 200 chars:'' @ [CHR 0x0A] @ take 200 text)"

definition callOpenAIJson ::
  "(string \<Rightarrow> 'a option) \<Rightarrow> stage \<Rightarrow> js_error + string option \<Rightarrow> run_state
     \<Rightarrow> (js_error + 'a) \<times> run_state" where
  "callOpenAIJson parse st resp s =
     (let s' = await (ChatCall st) s
      in case resp of
           Inl e \<Rightarrow> (Inl e, s')
         | Inr content \<Rightarrow>
             (let text = content_text content
              in case parse text of
                   Some v \<Rightarrow> (Inr v, s')
                 | None \<Rightarrow> (Inl (parse_failed text), s')))"

definition generateEditorialImage ::
  "'c env \<Rightarrow> nat \<Rightarrow> string \<Rightarrow> run_state \<Rightarrow> js_error option \<times> run_state" where
  \<comment> \<open>the \<open>i\<close>-th call of the run\<close>
  "generateEditorialImage env i outPath s =
     (let s' = await (ImageCall outPath) s
      in case images env i of
           Inl e \<Rightarrow> (Some e, s')
         | Inr b64 \<Rightarrow>
             (if b64 = None \<or> b64 = Some []
              then (Some (Error ''No image returned from image API''), s')
              else (case image_saves env i of
                      Some e \<Rightarrow> (Some e, s')
                    | None \<Rightarrow>
                        (None, s'\<lparr>disk := insert outPath (disk s'),
                                  trace := trace s' @ [Wrote outPath]\<rparr>))))"

section \<open>The job runner\<close>

text \<open>
  \<open>promptPlan\<close> reads \<open>brandContext.campaign.posts_count\<close> and so throws on a context
  that is \<open>null\<close> or has no campaign; the other two prompt builders read no field. The
  prompt text has no part in what follows and is not modelled. Of the brand style only
  \<open>slugify\<close> can throw, on a brand name that is not a string.
\<close>

definition promptPlan :: "input_value \<Rightarrow> js_error + unit" where
  "promptPlan brandContext =
     (case brandContext of
        Null_input \<Rightarrow> Inl (cannot_read ''null'' ''campaign'')
      | Input c \<Rightarrow>
          (case campaign c of
             No_campaign \<Rightarrow> Inl (cannot_read ''undefined'' ''posts_count'')
           | Null_campaign \<Rightarrow> Inl (cannot_read ''null'' ''posts_count'')
           | Campaign x \<Rightarrow> Inr ()))"

definition makeDefaultBrandStyle :: "input_value \<Rightarrow> js_error + unit" where
  \<comment> \<open>only \<open>slugify\<close> of the brand name can throw\<close>
  "makeDefaultBrandStyle inp =
     (case inp of
        Null_input \<Rightarrow> Inr ()
      | Input c \<Rightarrow>
          (case brand_name c of
             Not_a_string \<Rightarrow> Inl (not_a_function (''(str || '' @ [CHR 0x22] @ ''brand'' @ [CHR 0x22] @ '').toLowerCase''))
           | No_name \<Rightarrow> Inr ()
           | Name n \<Rightarrow> Inr ()))"

definition compile_briefs ::
  "input_value \<Rightarrow> plan_doc \<Rightarrow> visuals_doc \<Rightarrow> js_error + plan_json \<times> visuals_json" where
  \<comment> \<open>lines 356 to 367: the brand style, the compiled editorial prompts, the product briefs\<close>
  "compile_briefs brandContext planDoc visualsDoc =
     (case makeDefaultBrandStyle brandContext of
        Inl e \<Rightarrow> Inl e
      | Inr brandStyle \<Rightarrow>
          (case visualsDoc of
             Unusable_visuals e \<Rightarrow> Inl e
           | Visuals_doc visualsJson \<Rightarrow>
               (case planDoc of
                  Plan_doc planJson \<Rightarrow> Inr (planJson, visualsJson)
                | Bad_entries e \<Rightarrow> Inl e
                | Not_a_list e \<Rightarrow> Inl e)))"

fun perform :: "'c env \<Rightarrow> fs_op \<Rightarrow> run_state \<Rightarrow> js_error option \<times> run_state" where
  "perform env (Make_dir dir) s = ensureDir env dir s"
| "perform env (Write_file filePath) s = writeFileSafe env filePath s"

fun perform_all :: "'c env \<Rightarrow> fs_op list \<Rightarrow> run_state \<Rightarrow> js_error option \<times> run_state" where
  "perform_all env [] s = (None, s)"
| "perform_all env (a # rest) s =
     (case perform env a s of
        (Some e, s') \<Rightarrow> (Some e, s')
      | (None, s') \<Rightarrow> perform_all env rest s')"

definition output_names :: "string list" where
  "output_names =
     [''content_plan.json'', ''captions.json'', ''editorial_visuals.json'',
      ''brand_style.json'', ''editorial_visuals_compiled.json'', ''product_model_briefs.json'']"

definition save_ops :: "string \<Rightarrow> fs_op list" where
  \<comment> \<open>lines 370 to 388: \<open>ensureDir(outDir)\<close>, the six \<open>writeFileSafe\<close>, \<open>ensureDir(editorialDir)\<close>\<close>
  "save_ops jobId =
     (let outDir = path_join ''outputs'' jobId
      in Make_dir outDir #
         map (\<lambda>name. Write_file (path_join outDir name)) output_names @
         [Make_dir (path_join outDir ''Editorial_Posts'')])"

definition editorialOnly :: "plan_json \<Rightarrow> visuals_json \<Rightarrow> visual list" where
  "editorialOnly planJson visualsJson =
     (let editorialVisualsCompiled =
            (case editorial_visuals visualsJson of None \<Rightarrow> [] | Some vs \<Rightarrow> vs);
          editorialIds =
            map post_id (filter (\<lambda>p. visual_mode p = Some ''editorial'') (posts_of planJson))
      in filter (\<lambda>v. visual_id v \<in> set editorialIds) editorialVisualsCompiled)"

fun render_images ::
  "'c env \<Rightarrow> nat \<Rightarrow> string \<Rightarrow> visual list \<Rightarrow> run_state \<Rightarrow> js_error option \<times> run_state" where
  "render_images env i editorialDir [] s = (None, s)"
| "render_images env i editorialDir (v # vs) s =
     (case generateEditorialImage env i (path_join editorialDir (visual_id v @ ''.png'')) s of
        (Some e, s') \<Rightarrow> (Some e, s')
      | (None, s') \<Rightarrow> render_images env (Suc i) editorialDir vs s')"

definition finish :: "string \<Rightarrow> run_state \<Rightarrow> run_state" where
  \<comment> \<open>the last three assignments of the \<open>try\<close> block\<close>
  "finish jobId s =
     assign (\<lambda>j. j\<lparr>downloadUrl := Some (''/downloads/'' @ jobId @ ''/content_plan.json'')\<rparr>)
       (assign (\<lambda>j. j\<lparr>status := ''done''\<rparr>)
         (assign (\<lambda>j. j\<lparr>progress := 100\<rparr>) s))"

definition save_and_render ::
  "'c env \<Rightarrow> string \<Rightarrow> plan_doc \<Rightarrow> visuals_doc \<Rightarrow> run_state \<Rightarrow> js_error option \<times> run_state" where
  \<comment> \<open>from \<open>job.progress = 65\<close> to the end of the \<open>try\<close> block\<close>
  "save_and_render env jobId planDoc visualsDoc s =
     (let s1 = assign (\<lambda>j. j\<lparr>progress := 65\<rparr>) s
      in case compile_briefs (input (job s1)) planDoc visualsDoc of
           Inl e \<Rightarrow> (Some e, s1)
         | Inr (planJson, visualsJson) \<Rightarrow>
             (case perform_all env (save_ops jobId) s1 of
                (Some e, s2) \<Rightarrow> (Some e, s2)
              | (None, s2) \<Rightarrow>
                  (let editorialDir = path_join (path_join ''outputs'' jobId) ''Editorial_Posts'';
                       s3 = assign (\<lambda>j. j\<lparr>progress := 75\<rparr>) s2
                   in case render_images env 0 editorialDir
                             (editorialOnly planJson visualsJson) s3 of
                        (Some e, s4) \<Rightarrow> (Some e, s4)
                      | (None, s4) \<Rightarrow> (None, finish jobId s4))))"

definition visuals_stage ::
  "'c env \<Rightarrow> string \<Rightarrow> plan_doc \<Rightarrow> run_state \<Rightarrow> js_error option \<times> run_state" where
  \<comment> \<open>from \<open>job.progress = 55\<close> on\<close>
  "visuals_stage env jobId planDoc s =
     (let s1 = assign (\<lambda>j. j\<lparr>progress := 55\<rparr>) s
      in case callOpenAIJson (parse_visuals env) Visuals (chat env Visuals) s1 of
           (Inl e, s2) \<Rightarrow> (Some e, s2)
         | (Inr visualsDoc, s2) \<Rightarrow> save_and_render env jobId planDoc visualsDoc s2)"

definition captions_stage ::
  "'c env \<Rightarrow> string \<Rightarrow> plan_doc \<Rightarrow> run_state \<Rightarrow> js_error option \<times> run_state" where
  \<comment> \<open>from \<open>planJson = applyMixedMode(planJson)\<close> on\<close>
  "captions_stage env jobId planDoc0 s =
     (case applyMixedMode_doc planDoc0 of
        Inl e \<Rightarrow> (Some e, s)
      | Inr planDoc \<Rightarrow>
          (let s1 = assign (\<lambda>j. j\<lparr>progress := 35\<rparr>) s
           in case callOpenAIJson (parse_captions env) Captions (chat env Captions) s1 of
                (Inl e, s2) \<Rightarrow> (Some e, s2)
              | (Inr captionsJson, s2) \<Rightarrow> visuals_stage env jobId planDoc s2))"

definition runJob_try ::
  "'c env \<Rightarrow> string \<Rightarrow> run_state \<Rightarrow> js_error option \<times> run_state" where
  \<comment> \<open>the \<open>try\<close> block: \<open>Some e\<close> when it throws \<open>e\<close>, with the state at the throw\<close>
  "runJob_try env jobId s =
     (let s1 = assign (\<lambda>j. j\<lparr>status := ''running''\<rparr>) s;
          s2 = assign (\<lambda>j. j\<lparr>progress := 10\<rparr>) s1;
          brandContext = input (job s2)
      in case promptPlan brandContext of
           Inl e \<Rightarrow> (Some e, s2)
         | Inr prompt \<Rightarrow>
             (case callOpenAIJson (parse_plan env) Plan (chat env Plan) s2 of
                (Inl e, s3) \<Rightarrow> (Some e, s3)
              | (Inr planDoc0, s3) \<Rightarrow> captions_stage env jobId planDoc0 s3))"

definition runJob_catch :: "js_error \<Rightarrow> run_state \<Rightarrow> js_error option \<times> run_state" where
  "runJob_catch err s =
     (None,
      assign (\<lambda>j. j\<lparr>error := Some (if message err = [] then ''Unknown error'' else message err)\<rparr>)
        (assign (\<lambda>j. j\<lparr>status := ''error''\<rparr>) s))"

text \<open>\<open>try { body } catch (err) { handler }\<close>: what the handler throws is thrown on.\<close>

definition try_catch ::
  "('s \<Rightarrow> 'e option \<times> 's) \<Rightarrow> ('e \<Rightarrow> 's \<Rightarrow> 'e option \<times> 's) \<Rightarrow> 's \<Rightarrow> 'e option \<times> 's" where
  "try_catch body handler s =
     (case body s of
        (None, s') \<Rightarrow> (None, s')
      | (Some e, s') \<Rightarrow> handler e s')"

text \<open>
  The job table and the output directory. The job object that a run mutates is the
  very object the table holds, so the \<open>finally\<close> block (\<open>jobs.set(jobId, job)\<close>) stores
  what the table already shows; a run returns the error it rejects with (if any), the
  world it leaves and its log.
\<close>

record world =
  jobs :: "string \<Rightarrow> job option"
  files :: "string set"

definition start :: "world \<Rightarrow> job \<Rightarrow> run_state" where
  "start w j = \<lparr>job = j, disk = files w, trace = []\<rparr>"

definition runJob :: "'c env \<Rightarrow> string \<Rightarrow> world \<Rightarrow> js_error option \<times> world \<times> event list" where
  "runJob env jobId w =
     (case jobs w jobId of
        None \<Rightarrow> (None, w, [])
      | Some j \<Rightarrow>
          (case try_catch (runJob_try env jobId) runJob_catch (start w j) of
             (r, s) \<Rightarrow> (r, \<lparr>jobs = (jobs w)(jobId \<mapsto> job s), files = disk s\<rparr>, trace s)))"

section \<open>The routes\<close>

datatype body = JobIdBody string | ErrorBody string | JobBody job

datatype response = Json nat body

text \<open>
  A request to \<open>POST /api/jobs\<close>, as the handler finds it: the field names of the
  uploaded files, in order, and \<open>req.body\<close>, which is \<open>None\<close> when no body parser has
  filled it. Its field \<open>input_json\<close> is \<open>None\<close> when it is missing (or holds a falsy value
  that is not a string), and otherwise the text that \<open>JSON.parse\<close> reads it as.
  The upload middleware refuses a request with more than three files or with a file
  under another field name than \<open>product_images\<close>; its other failures (a multipart body
  that cannot be read, a failing write to \<open>uploads/\<close>) are not modelled.
\<close>

record form =
  input_json :: "string option"

record request =
  uploads :: "string list"
  form_body :: "form option"

definition upload_refused :: "request \<Rightarrow> bool" where
  \<comment> \<open>\<open>upload.array("product_images", 3)\<close> passes an error on, and the handler is not run\<close>
  "upload_refused req =
     (3 < length (uploads req) \<or> (\<exists>f \<in> set (uploads req). f \<noteq> ''product_images''))"

definition new_job :: "string \<Rightarrow> input_value \<Rightarrow> nat \<Rightarrow> job" where
  "new_job jobId inp now =
     \<lparr>job_id = jobId, status = ''queued'', progress = 0, input = inp, createdAt = now,
      error = None, downloadUrl = None\<rparr>"

text \<open>
  \<open>POST /api/jobs\<close>: \<open>jobId\<close> is the fresh identifier and \<open>now\<close> the clock. When the upload
  is refused, when \<open>req.body\<close> is undefined or when \<open>JSON.parse\<close> throws, the request ends
  in an error (\<open>Inl\<close>) before the table is touched; the response to it is written by the
  error handler of the framework, not by this program. \<open>Error ''SyntaxError''\<close> stands for
  the \<open>SyntaxError\<close> of \<open>JSON.parse\<close>, whose message depends on the text. Otherwise the job
  is stored, \<open>runJob(jobId)\<close> is started without being awaited (the third component), and
  the answer is the identifier.
\<close>

definition input_text :: "string option \<Rightarrow> string" where
  \<comment> \<open>\<open>req.body.input_json || "{}"\<close>, for a body that is there\<close>
  "input_text field =
     (case field of None \<Rightarrow> ''{}'' | Some t \<Rightarrow> if t = [] then ''{}'' else t)"

definition post_jobs ::
  "(string \<Rightarrow> input_value option) \<Rightarrow> string \<Rightarrow> nat \<Rightarrow> request \<Rightarrow> world
     \<Rightarrow> (js_error + response) \<times> world \<times> string option" where
  "post_jobs parse jobId now req w =
     (if upload_refused req then (Inl (Error ''Unexpected field''), w, None)
      else case form_body req of
             None \<Rightarrow> (Inl (cannot_read ''undefined'' ''input_json''), w, None)
           | Some b \<Rightarrow>
               (case parse (input_text (input_json b)) of
                  None \<Rightarrow> (Inl (Error ''SyntaxError''), w, None)
                | Some inp \<Rightarrow>
                    (Inr (Json 200 (JobIdBody jobId)),
                     w\<lparr>jobs := (jobs w)(jobId \<mapsto> new_job jobId inp now)\<rparr>,
                     Some jobId)))"


section \<open>Reading a log\<close>

fun assigned_of :: "event \<Rightarrow> job list" where
  "assigned_of (Assigned j) = [j]"
| "assigned_of (Awaited c j) = []"
| "assigned_of (Wrote p) = []"

fun awaited_of :: "event \<Rightarrow> job list" where
  "awaited_of (Assigned j) = []"
| "awaited_of (Awaited c j) = [j]"
| "awaited_of (Wrote p) = []"

datatype effect = Called call | Written string

fun effect_of :: "event \<Rightarrow> effect list" where
  "effect_of (Assigned j) = []"
| "effect_of (Awaited c j) = [Called c]"
| "effect_of (Wrote p) = [Written p]"

definition assigned :: "event list \<Rightarrow> job list" where
  \<comment> \<open>the job object after each assignment, in order\<close>
  "assigned tr = concat (map assigned_of tr)"

definition awaited :: "event list \<Rightarrow> job list" where
  \<comment> \<open>the job object at each suspension of the run, in order\<close>
  "awaited tr = concat (map awaited_of tr)"

definition effects :: "event list \<Rightarrow> effect list" where
  \<comment> \<open>the external calls and file writes, in order\<close>
  "effects tr = concat (map effect_of tr)"

fun written_of :: "event \<Rightarrow> string list" where
  "written_of (Assigned j) = []"
| "written_of (Awaited c j) = []"
| "written_of (Wrote p) = [p]"

definition written :: "event list \<Rightarrow> string list" where
  \<comment> \<open>the paths written, in order\<close>
  "written tr = concat (map written_of tr)"

fun write_of :: "effect \<Rightarrow> string list" where
  "write_of (Called c) = []"
| "write_of (Written p) = [p]"

definition writes :: "effect list \<Rightarrow> string list" where
  \<comment> \<open>the paths written, among some calls and writes\<close>
  "writes es = concat (map write_of es)"

fun occurs_before :: "'a \<Rightarrow> 'a \<Rightarrow> 'a list \<Rightarrow> bool" where
  \<comment> \<open>some occurrence of \<open>a\<close> comes before some occurrence of \<open>b\<close>\<close>
  "occurs_before a b [] = False"
| "occurs_before a b (x # xs) = ((x = a \<and> b \<in> set xs) \<or> occurs_before a b xs)"

definition disk_tracks :: "string set \<Rightarrow> run_state \<Rightarrow> bool" where
  \<comment> \<open>the disk holds what it held at \<open>D\<close> and every file the log says was written\<close>
  "disk_tracks D s = (disk s = D \<union> set (written (trace s)))"

text \<open>The assignments of a run that nothing interrupts, from a job record \<open>j\<close>.\<close>

definition ladder :: "string \<Rightarrow> job \<Rightarrow> job list" where
  "ladder jobId j =
     [j\<lparr>status := ''running''\<rparr>,
      j\<lparr>status := ''running'', progress := 10\<rparr>,
      j\<lparr>status := ''running'', progress := 35\<rparr>,
      j\<lparr>status := ''running'', progress := 55\<rparr>,
      j\<lparr>status := ''running'', progress := 65\<rparr>,
      j\<lparr>status := ''running'', progress := 75\<rparr>,
      j\<lparr>status := ''running'', progress := 100\<rparr>,
      j\<lparr>status := ''done'', progress := 100\<rparr>,
      j\<lparr>status := ''done'', progress := 100,
        downloadUrl := Some (''/downloads/'' @ jobId @ ''/content_plan.json'')\<rparr>]"

section \<open>Reading a run\<close>

definition run_error :: "'c env \<Rightarrow> string \<Rightarrow> world \<Rightarrow> js_error option" where
  \<comment> \<open>the error with which the promise of \<open>runJob\<close> rejects\<close>
  "run_error env jobId w = fst (runJob env jobId w)"

definition run_world :: "'c env \<Rightarrow> string \<Rightarrow> world \<Rightarrow> world" where
  "run_world env jobId w = fst (snd (runJob env jobId w))"

definition run_trace :: "'c env \<Rightarrow> string \<Rightarrow> world \<Rightarrow> event list" where
  "run_trace env jobId w = snd (snd (runJob env jobId w))"

definition final_job :: "'c env \<Rightarrow> string \<Rightarrow> world \<Rightarrow> job option" where
  "final_job env jobId w = jobs (run_world env jobId w) jobId"

definition created ::
  "(string \<Rightarrow> input_value option) \<Rightarrow> string \<Rightarrow> nat \<Rightarrow> request \<Rightarrow> world \<Rightarrow> world" where
  \<comment> \<open>the world that \<open>POST /api/jobs\<close> leaves, on which it starts the run\<close>
  "created parse jobId now req w = fst (snd (post_jobs parse jobId now req w))"

definition job_states :: "world \<Rightarrow> string \<Rightarrow> event list \<Rightarrow> job list" where
  \<comment> \<open>the states the job record passes through: the record in the table when the run
     starts, then the record after each assignment\<close>
  "job_states w jobId tr =
     (case jobs w jobId of None \<Rightarrow> [] | Some j \<Rightarrow> j # assigned tr)"

definition visible_states :: "world \<Rightarrow> world \<Rightarrow> string \<Rightarrow> event list \<Rightarrow> job list" where
  \<comment> \<open>the states a status query can be answered with: the record as created, the record
     at each suspension of the run, the record the run leaves. The code between two
     suspensions runs without interruption.\<close>
  "visible_states w w' jobId tr =
     (case jobs w jobId of
        None \<Rightarrow> []
      | Some j \<Rightarrow> (case jobs w' jobId of None \<Rightarrow> [] | Some j' \<Rightarrow> j # awaited tr @ [j']))"

definition status_changes :: "world \<Rightarrow> string \<Rightarrow> event list \<Rightarrow> string list" where
  \<comment> \<open>the values the status field takes, one entry per change\<close>
  "status_changes w jobId tr = remdups_adj (map status (job_states w jobId tr))"

subsection \<open>The stages, read off the environment\<close>

definition chat_text :: "'c env \<Rightarrow> stage \<Rightarrow> string" where
  "chat_text env st = (case chat env st of Inl e \<Rightarrow> [] | Inr content \<Rightarrow> content_text content)"

definition parses :: "'c env \<Rightarrow> stage \<Rightarrow> string \<Rightarrow> bool" where
  "parses env st text =
     (case st of
        Plan \<Rightarrow> parse_plan env text \<noteq> None
      | Captions \<Rightarrow> parse_captions env text \<noteq> None
      | Visuals \<Rightarrow> parse_visuals env text \<noteq> None)"

definition text_error :: "'c env \<Rightarrow> stage \<Rightarrow> js_error option" where
  \<comment> \<open>what \<open>callOpenAIJson\<close> throws at a stage: the rejection, or the parse failure\<close>
  "text_error env st =
     (case chat env st of
        Inl e \<Rightarrow> Some e
      | Inr content \<Rightarrow>
          if parses env st (content_text content) then None
          else Some (parse_failed (content_text content)))"

definition plan_of :: "'c env \<Rightarrow> plan_doc option" where
  \<comment> \<open>the plan the run works on after \<open>applyMixedMode\<close>, when it gets that far\<close>
  "plan_of env =
     (case parse_plan env (chat_text env Plan) of
        None \<Rightarrow> None
      | Some d \<Rightarrow> (case applyMixedMode_doc d of Inl e \<Rightarrow> None | Inr d' \<Rightarrow> Some d'))"

definition allocation_error :: "'c env \<Rightarrow> js_error option" where
  \<comment> \<open>what \<open>applyMixedMode\<close> throws on the parsed plan\<close>
  "allocation_error env =
     (case parse_plan env (chat_text env Plan) of
        None \<Rightarrow> None
      | Some d \<Rightarrow> (case applyMixedMode_doc d of Inl e \<Rightarrow> Some e | Inr d' \<Rightarrow> None))"

definition compiled :: "'c env \<Rightarrow> input_value \<Rightarrow> (js_error + plan_json \<times> visuals_json) option" where
  \<comment> \<open>the outcome of lines 356 to 367, when the run gets that far\<close>
  "compiled env inp =
     (case plan_of env of
        None \<Rightarrow> None
      | Some p \<Rightarrow>
          (case parse_visuals env (chat_text env Visuals) of
             None \<Rightarrow> None
           | Some v \<Rightarrow> Some (compile_briefs inp p v)))"

definition stage_ok :: "'c env \<Rightarrow> stage \<Rightarrow> bool" where
  \<comment> \<open>the stage goes through: its response arrives and parses and, for the plan stage,
     \<open>applyMixedMode\<close> does not throw\<close>
  "stage_ok env st =
     (text_error env st = None \<and> (case st of Plan \<Rightarrow> allocation_error env = None | _ \<Rightarrow> True))"

definition unparsable :: "'c env \<Rightarrow> stage \<Rightarrow> bool" where
  \<comment> \<open>the response of the stage arrives and does not parse\<close>
  "unparsable env st = (case chat env st of Inl e \<Rightarrow> False | Inr content \<Rightarrow> \<not> parses env st (content_text content))"

fun stages_before :: "stage \<Rightarrow> stage list" where
  "stages_before Plan = []"
| "stages_before Captions = [Plan]"
| "stages_before Visuals = [Plan, Captions]"

text \<open>The order of the external calls and file writes of a whole run, for a job whose
  editorial images go to \<open>paths\<close>.\<close>

definition schedule :: "string \<Rightarrow> string list \<Rightarrow> effect list" where
  "schedule jobId paths =
     [Called (ChatCall Plan), Called (ChatCall Captions), Called (ChatCall Visuals)] @
     map (\<lambda>name. Written (path_join (path_join ''outputs'' jobId) name)) output_names @
     concat (map (\<lambda>p. [Called (ImageCall p), Written p]) paths)"

definition image_path :: "string \<Rightarrow> visual \<Rightarrow> string" where
  "image_path jobId v =
     path_join (path_join (path_join ''outputs'' jobId) ''Editorial_Posts'') (visual_id v @ ''.png'')"

definition image_paths :: "'c env \<Rightarrow> string \<Rightarrow> input_value \<Rightarrow> string list" where
  \<comment> \<open>where the editorial images of the run go, when the run gets to them\<close>
  "image_paths env jobId inp =
     (case compiled env inp of
        Some (Inr (planJson, visualsJson)) \<Rightarrow>
          map (image_path jobId) (editorialOnly planJson visualsJson)
      | _ \<Rightarrow> [])"

subsection \<open>The places where a run can fail\<close>

text \<open>
  Every statement of the \<open>try\<close> block that can throw, in the order in which a run comes
  to them: building the plan prompt, the three text stages with \<open>applyMixedMode\<close> after
  the first, the compilation of lines 356 to 367, the operations on the output
  directory, and for each editorial image its request and its storing. What each of
  them throws is read off the environment and the submitted context, not off a run.
\<close>

datatype site =
    At_prompt
  | At_text stage
  | At_allocation
  | At_compile
  | At_disk fs_op
  | At_request nat string
  | At_store nat string

fun image_sites :: "nat \<Rightarrow> string list \<Rightarrow> site list" where
  "image_sites i [] = []"
| "image_sites i (p # ps) = At_request i p # At_store i p # image_sites (Suc i) ps"

definition sites :: "'c env \<Rightarrow> string \<Rightarrow> input_value \<Rightarrow> site list" where
  "sites env jobId inp =
     [At_prompt, At_text Plan, At_allocation, At_text Captions, At_text Visuals, At_compile] @
     map At_disk (save_ops jobId) @
     image_sites 0 (image_paths env jobId inp)"

fun site_error :: "'c env \<Rightarrow> input_value \<Rightarrow> site \<Rightarrow> js_error option" where
  "site_error env inp At_prompt = (case promptPlan inp of Inl e \<Rightarrow> Some e | Inr u \<Rightarrow> None)"
| "site_error env inp (At_text st) = text_error env st"
| "site_error env inp At_allocation = allocation_error env"
| "site_error env inp At_compile =
     (case compiled env inp of Some (Inl e) \<Rightarrow> Some e | _ \<Rightarrow> None)"
| "site_error env inp (At_disk a) = fs env a"
| "site_error env inp (At_request i p) =
     (case images env i of
        Inl e \<Rightarrow> Some e
      | Inr b64 \<Rightarrow>
          if b64 = None \<or> b64 = Some [] then Some (Error ''No image returned from image API'')
          else None)"
| "site_error env inp (At_store i p) = image_saves env i"

fun site_effects :: "site \<Rightarrow> effect list" where
  \<comment> \<open>the calls and writes of a site that goes through\<close>
  "site_effects (At_text st) = [Called (ChatCall st)]"
| "site_effects (At_disk (Write_file p)) = [Written p]"
| "site_effects (At_request i p) = [Called (ImageCall p)]"
| "site_effects (At_store i p) = [Written p]"
| "site_effects x = []"

fun failed_effects :: "site \<Rightarrow> effect list" where
  \<comment> \<open>the calls of a site that fails: a call that is rejected has been made\<close>
  "failed_effects (At_text st) = [Called (ChatCall st)]"
| "failed_effects (At_request i p) = [Called (ImageCall p)]"
| "failed_effects x = []"

fun first_error :: "'c env \<Rightarrow> input_value \<Rightarrow> site list \<Rightarrow> js_error option" where
  "first_error env inp [] = None"
| "first_error env inp (x # xs) =
     (case site_error env inp x of Some e \<Rightarrow> Some e | None \<Rightarrow> first_error env inp xs)"

fun effects_until :: "'c env \<Rightarrow> input_value \<Rightarrow> site list \<Rightarrow> effect list" where
  "effects_until env inp [] = []"
| "effects_until env inp (x # xs) =
     (case site_error env inp x of
        Some e \<Rightarrow> failed_effects x
      | None \<Rightarrow> site_effects x @ effects_until env inp xs)"

section \<open>Sample data\<close>

subsection \<open>Two small plans\<close>

definition new_post :: "string \<Rightarrow> string \<Rightarrow> string \<Rightarrow> post" where
  "new_post i ty tp =
     \<lparr>post_id = i, post_type = ty, topic = tp, angle = None, visual_mode = None\<rparr>"

definition plan_four :: plan_json where
  "plan_four = \<lparr>plan = Some \<lparr>posts = Some
     [new_post ''P01'' ''educational'' ''Product care basics'',
      new_post ''P02'' ''educational'' ''Morning routine'',
      new_post ''P03'' ''authority'' ''Founder story'',
      new_post ''P04'' ''relatable'' ''Common mistakes'']\<rparr>\<rparr>"

definition plan_five :: plan_json where
  "plan_five = \<lparr>plan = Some \<lparr>posts = Some
     [new_post ''P01'' ''promotional'' ''Spring bundle'',
      new_post ''P02'' ''educational'' ''Launch day checklist'',
      new_post ''P03'' ''authority'' ''Founder story'',
      new_post ''P04'' ''relatable'' ''Common mistakes'',
      new_post ''P05'' ''educational'' ''Morning routine'']\<rparr>\<rparr>"

subsection \<open>A sample environment\<close>

text \<open>The texts of a sample run, and \<open>JSON.parse\<close> on the texts that the samples use.\<close>

definition context_text :: string where
  \<open>context_text =
     ''{"campaign":{"month":"2026-01","posts_count":5},"brand":{"name":"Acme"}}''\<close>

definition plan_text :: string where
  \<open>plan_text =
     ''{"plan":{"posts":['' @
     ''{"id":"P01","post_type":"promotional","topic":"Spring bundle"},'' @
     ''{"id":"P02","post_type":"educational","topic":"Launch day checklist"},'' @
     ''{"id":"P03","post_type":"authority","topic":"Founder story"},'' @
     ''{"id":"P04","post_type":"relatable","topic":"Common mistakes"},'' @
     ''{"id":"P05","post_type":"educational","topic":"Morning routine"}]}}''\<close>

definition captions_text :: string where
  \<open>captions_text = ''{"captions":[]}''\<close>

definition visuals_text :: string where
  \<open>visuals_text =
     ''{"editorial_visuals":[{"id":"P01"},{"id":"P02"},{"id":"P03"},{"id":"P04"},{"id":"P05"}]}''\<close>

definition sample_visuals :: visuals_json where
  "sample_visuals = \<lparr>editorial_visuals = Some
     [\<lparr>visual_id = ''P01''\<rparr>, \<lparr>visual_id = ''P02''\<rparr>, \<lparr>visual_id = ''P03''\<rparr>,
      \<lparr>visual_id = ''P04''\<rparr>, \<lparr>visual_id = ''P05''\<rparr>]\<rparr>"

definition sample_context :: brand_context where
  "sample_context =
     \<lparr>campaign = Campaign \<lparr>month = ''2026-01'', posts_count = 5\<rparr>, brand_name = Name ''Acme''\<rparr>"

definition empty_context :: brand_context where
  \<comment> \<open>the empty object\<close>
  "empty_context = \<lparr>campaign = No_campaign, brand_name = No_name\<rparr>"

definition odd_context :: brand_context where
  \<comment> \<open>a campaign of minus one posts in no month\<close>
  "odd_context = \<lparr>campaign = Campaign \<lparr>month = [], posts_count = - 1\<rparr>, brand_name = No_name\<rparr>"

definition odd_text :: string where
  \<open>odd_text = ''{"campaign":{"month":"","posts_count":-1}}''\<close>

definition sample_parse :: "string \<Rightarrow> input_value option" where
  "sample_parse t =
     (if t = context_text then Some (Input sample_context)
      else if t = ''{}'' then Some (Input empty_context)
      else if t = ''null'' then Some Null_input
      else if t = odd_text then Some (Input odd_context)
      else None)"

definition sample_plan_parse :: "string \<Rightarrow> plan_doc option" where
  "sample_plan_parse t =
     (if t = plan_text then Some (Plan_doc plan_five)
      else if t = ''{}'' then Some (Plan_doc \<lparr>plan = None\<rparr>)
      else None)"

definition sample_env :: "unit env" where
  \<comment> \<open>every call answers and every operation on the disk goes through\<close>
  "sample_env =
     \<lparr>chat = (\<lambda>st. Inr (Some (case st of Plan \<Rightarrow> plan_text
                                  | Captions \<Rightarrow> captions_text
                                  | Visuals \<Rightarrow> visuals_text))),
      images = (\<lambda>n. Inr (Some ''aGk='')),
      image_saves = (\<lambda>n. None),
      fs = (\<lambda>a. None),
      parse_plan = sample_plan_parse,
      parse_captions = (\<lambda>t. if t = captions_text then Some () else None),
      parse_visuals = (\<lambda>t. if t = visuals_text then Some (Visuals_doc sample_visuals) else None)\<rparr>"

definition sample_request :: request where
  "sample_request = \<lparr>uploads = [], form_body = Some \<lparr>input_json = Some context_text\<rparr>\<rparr>"

definition empty_world :: world where
  "empty_world = \<lparr>jobs = (\<lambda>i. None), files = {}\<rparr>"

definition sample_world :: world where
  \<comment> \<open>the world after a first submission\<close>
  "sample_world = created sample_parse ''job-1'' 0 sample_request empty_world"

definition failing_env :: "unit env" where
  \<comment> \<open>as \<open>sample_env\<close>, but only the first image request returns an image\<close>
  "failing_env = sample_env\<lparr>images := (\<lambda>n. if n = 0 then Inr (Some ''aGk='') else Inr None)\<rparr>"

definition full_disk_env :: "unit env" where
  \<comment> \<open>as \<open>sample_env\<close>, but the second artifact cannot be written\<close>
  "full_disk_env =
     sample_env\<lparr>fs := (\<lambda>a. if a = Write_file ''outputs/job-1/captions.json''
                            then Some (Error ''ENOSPC: no space left on device, write'')
                            else None)\<rparr>"

definition garbled_env :: "unit env" where
  \<comment> \<open>as \<open>sample_env\<close>, but the captions response is not JSON\<close>
  "garbled_env =
     sample_env\<lparr>chat := (\<lambda>st. if st = Captions then Inr (Some ''oops'') else chat sample_env st)\<rparr>"

section \<open>Properties of the mode allocation\<close>

subsection \<open>The loops and the tags\<close>

lemma push_all_eq: "push_all chosen ps = chosen @ ps"
  by (induction ps arbitrary: chosen) auto

lemma push_below4_eq: "push_below4 chosen ps = chosen @ take (4 - length chosen) ps"
  by (induction ps arbitrary: chosen) (auto simp: take_Cons')

lemma take_append_take: "take n (xs @ take (n - length xs) ys) = take n (xs @ ys)"
  by simp

lemma take_append_take3:
  "take n (xs @ take (n - length xs) ys @ zs) = take n (xs @ ys @ zs)"
  by (simp add: min_def)

lemma take4_chosen_posts:
  "take 4 (chosen_posts ps) =
     take 4 (filter is_promotional ps @
             filter is_productish (filter (\<lambda>p. \<not> is_promotional p) ps) @
             filter (\<lambda>p. \<not> is_promotional p) ps)"
proof -
  let ?promo = "filter is_promotional ps"
  let ?remaining = "filter (\<lambda>p. \<not> is_promotional p) ps"
  let ?productish = "filter is_productish ?remaining"
  let ?first = "?promo @ take (4 - length ?promo) ?productish"
  have "chosen_posts ps = ?first @ take (4 - length ?first) ?remaining"
    by (simp add: chosen_posts_def push_all_eq push_below4_eq Let_def)
  then have "take 4 (chosen_posts ps) = take 4 (?first @ ?remaining)"
    by (simp only: take_append_take)
  also have "\<dots> = take 4 (?promo @ ?productish @ ?remaining)"
    using take_append_take3 [of 4 ?promo ?productish ?remaining] by simp
  finally show ?thesis .
qed

lemma is_promotional_tag [simp]: "is_promotional (tag_post ids p) = is_promotional p"
  by (simp add: is_promotional_def tag_post_def)

lemma is_productish_tag [simp]: "is_productish (tag_post ids p) = is_productish p"
  by (simp add: is_productish_def tag_post_def)

lemma post_id_tag [simp]: "post_id (tag_post ids p) = post_id p"
  by (simp add: tag_post_def)

lemma tag_post_twice [simp]: "tag_post ids (tag_post ids p) = tag_post ids p"
  by (simp add: tag_post_def)

lemma chosenIds_tagged: "chosenIds (map (tag_post ids) ps) = chosenIds ps"
  by (simp add: chosenIds_def take4_chosen_posts filter_map comp_def take_map flip: map_append)

lemma posts_of_with_posts:
  "posts_of planJson \<noteq> [] \<Longrightarrow> posts_of (with_posts planJson ps) = ps"
  by (auto simp: posts_of_def with_posts_def split: option.splits)

lemma with_posts_twice:
  "with_posts (with_posts planJson ps) qs = with_posts planJson qs"
  by (auto simp: with_posts_def split: option.splits)

subsection \<open>What the allocation does on every plan\<close>

lemma posts_of_applyMixedMode:
  "posts_of (applyMixedMode planJson) =
     (if posts_of planJson = [] then []
      else map (tag_post (chosenIds (posts_of planJson))) (posts_of planJson))"
  by (simp add: applyMixedMode_def Let_def posts_of_with_posts)

lemma applyMixedMode_keeps_ids:
  "map post_id (posts_of (applyMixedMode planJson)) = map post_id (posts_of planJson)"
  by (simp add: posts_of_applyMixedMode comp_def)

lemma applyMixedMode_tags_every_post:
  "list_all (\<lambda>p. visual_mode p = Some ''product_model'' \<or> visual_mode p = Some ''editorial'')
     (posts_of (applyMixedMode planJson))"
  by (simp add: posts_of_applyMixedMode list_all_iff tag_post_def)

lemma length_filter_distinct_keys:
  assumes "distinct (map f xs)"
  shows "length (filter (\<lambda>x. f x \<in> set ys) xs) \<le> length ys"
proof -
  let ?sel = "filter (\<lambda>x. f x \<in> set ys) xs"
  have "distinct (map f ?sel)"
    using assms by (simp add: distinct_map_filter)
  then have "length ?sel = card (set (map f ?sel))"
    by (metis distinct_card length_map)
  also have "\<dots> \<le> card (set ys)"
    by (rule card_mono) auto
  also have "\<dots> \<le> length ys"
    by (rule card_length)
  finally show ?thesis .
qed

lemma applyMixedMode_at_most_four:
  assumes "distinct (map post_id (posts_of planJson))"
  shows "length (product_model_posts (applyMixedMode planJson)) \<le> 4"
proof -
  let ?ps = "posts_of planJson"
  let ?ids = "chosenIds ?ps"
  have "length (filter (\<lambda>p. visual_mode p = Some ''product_model'') (map (tag_post ?ids) ?ps)) =
      length (filter (\<lambda>p. post_id p \<in> set ?ids) ?ps)"
    by (simp add: filter_map comp_def tag_post_def)
  also have "\<dots> \<le> length ?ids"
    using assms by (rule length_filter_distinct_keys)
  also have "\<dots> \<le> 4"
    by (simp add: chosenIds_def)
  finally show ?thesis
    by (simp add: product_model_posts_def posts_of_applyMixedMode)
qed

subsection \<open>The claims\<close>

text \<open>
  Claim C1 (exactly four posts are tagged \<open>product_model\<close> when the plan has at least
  four posts; every post is tagged when it has fewer). Every post of a plan with posts is
  tagged, and with distinct identifiers at most four are tagged \<open>product_model\<close>, as shown
  above. The code misses the exact count: the third loop runs over \<open>remaining\<close>, which
  still holds the keyword posts that the second loop has pushed, so a keyword post fills
  two of the four slots of \<open>chosen\<close>. On the plan \<open>plan_four\<close>, four posts with distinct
  identifiers, none promotional, the first a keyword post, the code tags three posts
  \<open>product_model\<close> and one \<open>editorial\<close>.
\<close>

theorem applyMixedMode_three_of_four:
  "length (posts_of plan_four) = 4 \<and>
   distinct (map post_id (posts_of plan_four)) \<and>
   map visual_mode (posts_of (applyMixedMode plan_four)) =
     [Some ''product_model'', Some ''product_model'', Some ''product_model'',
      Some ''editorial''] \<and>
   length (product_model_posts (applyMixedMode plan_four)) = 3"
  by code_simp

text \<open>
  Claim C2 (the \<open>product_model\<close> set is filled to exactly four members by priority
  class: promotional posts, keyword posts, then the remaining posts). On \<open>plan_five\<close>
  (one promotional post, one keyword post, three others) the priority classes give
  P01, P02, P03, P04, while the code selects P01, P02, P02, P03 and so tags only three
  posts: P04 stays \<open>editorial\<close>. This is the defect of C1.
\<close>

theorem applyMixedMode_priority_fill_short:
  "map post_id (spec_priority_fill (posts_of plan_five)) = [''P01'', ''P02'', ''P03'', ''P04''] \<and>
   chosenIds (posts_of plan_five) = [''P01'', ''P02'', ''P02'', ''P03''] \<and>
   map post_id (product_model_posts (applyMixedMode plan_five)) = [''P01'', ''P02'', ''P03'']"
  by code_simp

text \<open>
  Claim C3 (idempotence): applying the mode allocation to a plan it has already tagged
  gives the same plan, so the same \<open>visual_mode\<close> for every post. The allocation reads
  only \<open>post_type\<close>, \<open>topic\<close>, \<open>angle\<close> and \<open>id\<close>, none of which it writes.
\<close>

theorem applyMixedMode_idempotent:
  "applyMixedMode (applyMixedMode planJson) = applyMixedMode planJson"
proof (cases "posts_of planJson = []")
  case True
  then show ?thesis by (simp add: applyMixedMode_def)
next
  case False
  let ?ps = "posts_of planJson"
  let ?tagged = "map (tag_post (chosenIds ?ps)) ?ps"
  have once: "applyMixedMode planJson = with_posts planJson ?tagged"
    using False by (simp add: applyMixedMode_def Let_def)
  have posts: "posts_of (with_posts planJson ?tagged) = ?tagged"
    using False by (rule posts_of_with_posts)
  have nonempty: "?tagged \<noteq> []"
    using False by simp
  have again: "map (tag_post (chosenIds ?tagged)) ?tagged = ?tagged"
    by (simp add: chosenIds_tagged)
  show ?thesis
    unfolding once
    using nonempty
    by (simp add: applyMixedMode_def Let_def posts again with_posts_twice del: map_map)
qed

text \<open>
  Claim C10: a plan whose post list is empty or absent (no \<open>plan\<close>, no \<open>posts\<close>, or
  \<open>posts = []\<close>) is returned unchanged; no \<open>visual_mode\<close> is assigned.
\<close>

theorem applyMixedMode_no_posts:
  "posts_of planJson = [] \<Longrightarrow> applyMixedMode planJson = planJson"
  by (simp add: applyMixedMode_def Let_def)

theorem applyMixedMode_no_posts_witness:
  "posts_of \<lparr>plan = Some \<lparr>posts = Some []\<rparr>\<rparr> = [] \<and>
   posts_of \<lparr>plan = Some \<lparr>posts = None\<rparr>\<rparr> = [] \<and>
   posts_of \<lparr>plan = None\<rparr> = [] \<and>
   applyMixedMode \<lparr>plan = Some \<lparr>posts = Some []\<rparr>\<rparr> = \<lparr>plan = Some \<lparr>posts = Some []\<rparr>\<rparr> \<and>
   applyMixedMode \<lparr>plan = Some \<lparr>posts = None\<rparr>\<rparr> = \<lparr>plan = Some \<lparr>posts = None\<rparr>\<rparr> \<and>
   applyMixedMode \<lparr>plan = None\<rparr> = \<lparr>plan = None\<rparr>"
  using applyMixedMode_no_posts [of "\<lparr>plan = Some \<lparr>posts = Some []\<rparr>\<rparr>"]
    applyMixedMode_no_posts [of "\<lparr>plan = Some \<lparr>posts = None\<rparr>\<rparr>"]
    applyMixedMode_no_posts [of "\<lparr>plan = None\<rparr>"]
  by (simp add: posts_of_def)

section \<open>Properties of the job runner\<close>

subsection \<open>Steps and their logs\<close>

lemma assigned_simps [simp]:
  "assigned [] = []"
  "assigned (xs @ ys) = assigned xs @ assigned ys"
  "assigned (Assigned j # xs) = j # assigned xs"
  "assigned (Awaited c j # xs) = assigned xs"
  "assigned (Wrote p # xs) = assigned xs"
  by (simp_all add: assigned_def)

lemma awaited_simps [simp]:
  "awaited [] = []"
  "awaited (xs @ ys) = awaited xs @ awaited ys"
  "awaited (Assigned j # xs) = awaited xs"
  "awaited (Awaited c j # xs) = j # awaited xs"
  "awaited (Wrote p # xs) = awaited xs"
  by (simp_all add: awaited_def)

lemma effects_simps [simp]:
  "effects [] = []"
  "effects (xs @ ys) = effects xs @ effects ys"
  "effects (Assigned j # xs) = effects xs"
  "effects (Awaited c j # xs) = Called c # effects xs"
  "effects (Wrote p # xs) = Written p # effects xs"
  by (simp_all add: effects_def)

lemma written_simps [simp]:
  "written [] = []"
  "written (xs @ ys) = written xs @ written ys"
  "written (Assigned j # xs) = written xs"
  "written (Awaited c j # xs) = written xs"
  "written (Wrote p # xs) = p # written xs"
  by (simp_all add: written_def)

lemma assign_simps [simp]:
  "job (assign f s) = f (job s)"
  "disk (assign f s) = disk s"
  "trace (assign f s) = trace s @ [Assigned (f (job s))]"
  by (simp_all add: assign_def)

lemma await_simps [simp]:
  "job (await c s) = job s"
  "disk (await c s) = disk s"
  "trace (await c s) = trace s @ [Awaited c (job s)]"
  by (simp_all add: await_def)

lemma finish_simps [simp]:
  "job (finish jobId s) =
     (job s)\<lparr>progress := 100, status := ''done'',
             downloadUrl := Some (''/downloads/'' @ jobId @ ''/content_plan.json'')\<rparr>"
  "disk (finish jobId s) = disk s"
  "awaited (trace (finish jobId s)) = awaited (trace s)"
  "effects (trace (finish jobId s)) = effects (trace s)"
  "written (trace (finish jobId s)) = written (trace s)"
  by (simp_all add: finish_def)

lemma disk_tracks_steps [simp]:
  "disk_tracks D s \<Longrightarrow> disk_tracks D (assign f s)"
  "disk_tracks D s \<Longrightarrow> disk_tracks D (await c s)"
  "disk_tracks D s \<Longrightarrow> disk_tracks D (finish jobId s)"
  by (auto simp: disk_tracks_def)

text \<open>One operation on the output directory: it throws what the environment says, and
  leaves a trace only when it is a write that goes through.\<close>

lemma perform_result:
  assumes "perform env a s = (r, s')"
  shows "r = fs env a"
    and "job s' = job s"
    and "assigned (trace s') = assigned (trace s)"
    and "awaited (trace s') = awaited (trace s)"
    and "effects (trace s') = effects (trace s) @ (if r = None then site_effects (At_disk a) else [])"
    and "disk_tracks D s \<Longrightarrow> disk_tracks D s'"
  using assms
  by (cases a; auto simp: ensureDir_def writeFileSafe_def disk_tracks_def split: option.splits)+

lemma callOpenAIJson_state:
  "callOpenAIJson parse st resp s = (r, s') \<Longrightarrow> s' = await (ChatCall st) s"
  by (auto simp: callOpenAIJson_def Let_def split: sum.splits option.splits)

lemma callOpenAIJson_result:
  "fst (callOpenAIJson parse st resp s) =
     (case resp of
        Inl e \<Rightarrow> Inl e
      | Inr content \<Rightarrow>
          (case parse (content_text content) of
             None \<Rightarrow> Inl (parse_failed (content_text content))
           | Some v \<Rightarrow> Inr v))"
  by (simp add: callOpenAIJson_def Let_def split: sum.splits option.splits)

text \<open>A text stage throws exactly what \<open>text_error\<close> reads off the environment.\<close>

lemma plan_call:
  assumes "callOpenAIJson (parse_plan env) Plan (chat env Plan) s = (r, s')"
  shows "s' = await (ChatCall Plan) s"
    and "case r of Inl e \<Rightarrow> text_error env Plan = Some e
         | Inr d \<Rightarrow> text_error env Plan = None \<and> parse_plan env (chat_text env Plan) = Some d"
  using assms
  by (auto simp: callOpenAIJson_def Let_def text_error_def parses_def chat_text_def
      split: sum.splits option.splits)

lemma captions_call:
  assumes "callOpenAIJson (parse_captions env) Captions (chat env Captions) s = (r, s')"
  shows "s' = await (ChatCall Captions) s"
    and "case r of Inl e \<Rightarrow> text_error env Captions = Some e
         | Inr d \<Rightarrow> text_error env Captions = None"
  using assms
  by (auto simp: callOpenAIJson_def Let_def text_error_def parses_def chat_text_def
      split: sum.splits option.splits)

lemma visuals_call:
  assumes "callOpenAIJson (parse_visuals env) Visuals (chat env Visuals) s = (r, s')"
  shows "s' = await (ChatCall Visuals) s"
    and "case r of Inl e \<Rightarrow> text_error env Visuals = Some e
         | Inr d \<Rightarrow> text_error env Visuals = None \<and>
                    parse_visuals env (chat_text env Visuals) = Some d"
  using assms
  by (auto simp: callOpenAIJson_def Let_def text_error_def parses_def chat_text_def
      split: sum.splits option.splits)

lemma generateEditorialImage_result:
  assumes "generateEditorialImage env i p s = (r, s')"
  shows "r = first_error env inp [At_request i p, At_store i p]"
    and "job s' = job s"
    and "assigned (trace s') = assigned (trace s)"
    and "awaited (trace s') = awaited (trace s) @ [job s]"
    and "effects (trace s') = effects (trace s) @ effects_until env inp [At_request i p, At_store i p]"
    and "disk_tracks D s \<Longrightarrow> disk_tracks D s'"
  using assms
  by (auto simp: generateEditorialImage_def Let_def disk_tracks_def
      split: sum.splits option.splits if_splits)

subsection \<open>The failure sites, in sequence\<close>

lemma first_error_append:
  "first_error env inp (xs @ ys) =
     (case first_error env inp xs of Some e \<Rightarrow> Some e | None \<Rightarrow> first_error env inp ys)"
  by (induction xs) (auto split: option.splits)

lemma effects_until_append:
  "effects_until env inp (xs @ ys) =
     (case first_error env inp xs of
        Some e \<Rightarrow> effects_until env inp xs
      | None \<Rightarrow> effects_until env inp xs @ effects_until env inp ys)"
  by (induction xs) (auto split: option.splits)

lemma perform_all_same:
  "perform_all env ops s = (r, s') \<Longrightarrow>
     job s' = job s \<and> assigned (trace s') = assigned (trace s) \<and>
     awaited (trace s') = awaited (trace s)"
proof (induction ops arbitrary: s)
  case Nil
  then show ?case by simp
next
  case (Cons a ops)
  obtain r1 s1 where first: "perform env a s = (r1, s1)"
    by (cases "perform env a s")
  note p = perform_result [OF first]
  show ?case
  proof (cases r1)
    case None
    with Cons.prems first have "perform_all env ops s1 = (r, s')" by simp
    from Cons.IH [OF this] p show ?thesis by simp
  next
    case (Some e)
    with Cons.prems first have "s' = s1" by simp
    with p show ?thesis by simp
  qed
qed

lemma perform_all_sites:
  "perform_all env ops s = (r, s') \<Longrightarrow>
     r = first_error env inp (map At_disk ops) \<and>
     effects (trace s') = effects (trace s) @ effects_until env inp (map At_disk ops)"
proof (induction ops arbitrary: s)
  case Nil
  then show ?case by simp
next
  case (Cons a ops)
  obtain r1 s1 where first: "perform env a s = (r1, s1)"
    by (cases "perform env a s")
  note p = perform_result [OF first]
  show ?case
  proof (cases r1)
    case None
    with Cons.prems first have "perform_all env ops s1 = (r, s')" by simp
    from Cons.IH [OF this] p(1) p(5) None show ?thesis by simp
  next
    case (Some e)
    with Cons.prems first have "s' = s1" "r = Some e" by simp_all
    moreover from p(1) Some have "fs env a = Some e" by simp
    ultimately show ?thesis using p(5) Some by simp
  qed
qed

lemma disk_tracks_perform_all:
  "perform_all env ops s = (r, s') \<Longrightarrow> disk_tracks D s \<Longrightarrow> disk_tracks D s'"
proof (induction ops arbitrary: s)
  case Nil
  then show ?case by simp
next
  case (Cons a ops)
  obtain r1 s1 where first: "perform env a s = (r1, s1)"
    by (cases "perform env a s")
  from perform_result(6) [OF first Cons.prems(2)] have d: "disk_tracks D s1" .
  show ?case
  proof (cases r1)
    case None
    with Cons.prems first have "perform_all env ops s1 = (r, s')" by simp
    from Cons.IH [OF this d] show ?thesis .
  next
    case (Some e)
    with Cons.prems first d show ?thesis by simp
  qed
qed

lemma render_images_same:
  "render_images env i dir vs s = (r, s') \<Longrightarrow>
     job s' = job s \<and> assigned (trace s') = assigned (trace s) \<and>
     (\<exists>n. awaited (trace s') = awaited (trace s) @ replicate n (job s))"
proof (induction vs arbitrary: i s)
  case Nil
  then show ?case by simp
next
  case (Cons v vs)
  let ?p = "path_join dir (visual_id v @ ''.png'')"
  obtain r1 s1 where first: "generateEditorialImage env i ?p s = (r1, s1)"
    by (cases "generateEditorialImage env i ?p s")
  note g = generateEditorialImage_result [OF first]
  show ?case
  proof (cases r1)
    case (Some e)
    with Cons.prems first have "s' = s1" by simp
    with g have "job s' = job s \<and> assigned (trace s') = assigned (trace s) \<and>
        awaited (trace s') = awaited (trace s) @ replicate 1 (job s)"
      by simp
    then show ?thesis by blast
  next
    case None
    with Cons.prems first have "render_images env (Suc i) dir vs s1 = (r, s')" by simp
    from Cons.IH [OF this] obtain n where
      "job s' = job s1" "assigned (trace s') = assigned (trace s1)"
      "awaited (trace s') = awaited (trace s1) @ replicate n (job s1)"
      by blast
    with g have "job s' = job s \<and> assigned (trace s') = assigned (trace s) \<and>
        awaited (trace s') = awaited (trace s) @ replicate (Suc n) (job s)"
      by simp
    then show ?thesis by blast
  qed
qed

lemma render_images_sites:
  "render_images env i dir vs s = (r, s') \<Longrightarrow>
     r = first_error env inp
           (image_sites i (map (\<lambda>v. path_join dir (visual_id v @ ''.png'')) vs)) \<and>
     effects (trace s') =
       effects (trace s) @
       effects_until env inp
         (image_sites i (map (\<lambda>v. path_join dir (visual_id v @ ''.png'')) vs))"
proof (induction vs arbitrary: i s)
  case Nil
  then show ?case by simp
next
  case (Cons v vs)
  let ?p = "path_join dir (visual_id v @ ''.png'')"
  define one where "one = [At_request i ?p, At_store i ?p]"
  define rest where
    "rest = image_sites (Suc i) (map (\<lambda>v. path_join dir (visual_id v @ ''.png'')) vs)"
  obtain r1 s1 where first: "generateEditorialImage env i ?p s = (r1, s1)"
    by (cases "generateEditorialImage env i ?p s")
  have g1: "first_error env inp one = r1"
    using generateEditorialImage_result(1) [OF first, of inp] by (simp only: one_def)
  have g5: "effects (trace s1) = effects (trace s) @ effects_until env inp one"
    using generateEditorialImage_result(5) [OF first, of inp] by (simp only: one_def)
  have split: "image_sites i (map (\<lambda>v. path_join dir (visual_id v @ ''.png'')) (v # vs)) =
      one @ rest"
    by (simp add: one_def rest_def)
  show ?case
  proof (cases r1)
    case (Some e)
    with Cons.prems first have "s' = s1" "r = Some e" by simp_all
    with g1 g5 Some show ?thesis
      unfolding split first_error_append effects_until_append by simp
  next
    case None
    with Cons.prems first have "render_images env (Suc i) dir vs s1 = (r, s')" by simp
    from Cons.IH [OF this] g1 g5 None show ?thesis
      unfolding split first_error_append effects_until_append rest_def [symmetric] by simp
  qed
qed

lemma disk_tracks_render_images:
  "render_images env i dir vs s = (r, s') \<Longrightarrow> disk_tracks D s \<Longrightarrow> disk_tracks D s'"
proof (induction vs arbitrary: i s)
  case Nil
  then show ?case by simp
next
  case (Cons v vs)
  let ?p = "path_join dir (visual_id v @ ''.png'')"
  obtain r1 s1 where first: "generateEditorialImage env i ?p s = (r1, s1)"
    by (cases "generateEditorialImage env i ?p s")
  from generateEditorialImage_result(6) [OF first Cons.prems(2)] have d: "disk_tracks D s1" .
  show ?case
  proof (cases r1)
    case None
    with Cons.prems first have "render_images env (Suc i) dir vs s1 = (r, s')" by simp
    from Cons.IH [OF this d] show ?thesis .
  next
    case (Some e)
    with Cons.prems first d show ?thesis by simp
  qed
qed

subsection \<open>The job record over a run\<close>

lemmas stage_defs =
  runJob_try_def captions_stage_def visuals_stage_def save_and_render_def finish_def Let_def

lemma runJob_try_assigned:
  assumes "runJob_try env jobId s = (r, s')" and "trace s = []"
  shows "(r = None \<and> assigned (trace s') = ladder jobId (job s)) \<or>
         (r \<noteq> None \<and> (\<exists>k\<in>{2, 3, 4, 5, 6}. assigned (trace s') = take k (ladder jobId (job s))))"
  using assms
  unfolding stage_defs
  by (auto simp: ladder_def split: sum.splits prod.splits option.splits
      dest!: callOpenAIJson_state render_images_same perform_all_same)

lemma runJob_try_job:
  assumes "runJob_try env jobId s = (r, s')" and "trace s = []"
  shows "job s' = last (assigned (trace s'))"
  using assms
  unfolding stage_defs
  by (auto simp: ladder_def split: sum.splits prod.splits option.splits
      dest!: callOpenAIJson_state render_images_same perform_all_same)

lemma runJob_try_awaited_sorted:
  assumes "runJob_try env jobId s = (r, s')" and "trace s = []" and "progress (job s) \<le> 10"
  shows "sorted (map progress (job s # awaited (trace s') @ [job s']))"
  using assms
  unfolding stage_defs
  by (auto simp: sorted_append split: sum.splits prod.splits option.splits
      dest!: callOpenAIJson_state render_images_same perform_all_same)

lemma runJob_try_awaited_running:
  assumes "runJob_try env jobId s = (r, s')" and "trace s = []"
  shows "list_all (\<lambda>x. status x = ''running'' \<and> progress x < 100) (awaited (trace s'))"
  using assms
  unfolding stage_defs
  by (auto simp: list_all_iff split: sum.splits prod.splits option.splits
      dest!: callOpenAIJson_state render_images_same perform_all_same)

lemma runJob_try_awaited_assigned:
  assumes "runJob_try env jobId s = (r, s')" and "trace s = []"
  shows "set (awaited (trace s')) \<subseteq> set (assigned (trace s'))"
  using assms
  unfolding stage_defs
  by (auto split: sum.splits prod.splits option.splits
      dest!: callOpenAIJson_state render_images_same perform_all_same)

lemma runJob_unfold:
  assumes "jobs w jobId = Some j" and "runJob_try env jobId (start w j) = (r, s)"
  shows "runJob env jobId w =
     (case r of
        None \<Rightarrow> (None, \<lparr>jobs = (jobs w)(jobId \<mapsto> job s), files = disk s\<rparr>, trace s)
      | Some e \<Rightarrow>
          (None,
           \<lparr>jobs = (jobs w)(jobId \<mapsto>
              (job s)\<lparr>status := ''error'',
                      error := Some (if message e = [] then ''Unknown error'' else message e)\<rparr>),
            files = disk s\<rparr>,
           trace s @
           [Assigned ((job s)\<lparr>status := ''error''\<rparr>),
            Assigned ((job s)\<lparr>status := ''error'',
                      error := Some (if message e = [] then ''Unknown error'' else message e)\<rparr>)]))"
  using assms
  by (simp add: runJob_def try_catch_def runJob_catch_def split: option.splits)

lemma runJob_never_rejects: "run_error env jobId w = None"
  by (auto simp: run_error_def runJob_def try_catch_def runJob_catch_def
      split: option.splits prod.splits)

lemma runJob_other_job:
  "i \<noteq> jobId \<Longrightarrow> jobs (run_world env i w) jobId = jobs w jobId"
  by (auto simp: run_world_def runJob_def split: option.splits prod.splits)

subsection \<open>The output directory over a run\<close>

lemma disk_tracks_callOpenAIJson:
  "callOpenAIJson parse st resp s = (r, s') \<Longrightarrow> disk_tracks D s \<Longrightarrow> disk_tracks D s'"
  by (auto dest!: callOpenAIJson_state)

lemma disk_tracks_save_and_render:
  "save_and_render env jobId planDoc visualsDoc s = (r, s') \<Longrightarrow> disk_tracks D s \<Longrightarrow>
     disk_tracks D s'"
  unfolding save_and_render_def Let_def
  by (auto split: prod.splits option.splits sum.splits
      dest!: disk_tracks_render_images [where D = D] disk_tracks_perform_all [where D = D])

lemma disk_tracks_visuals_stage:
  "visuals_stage env jobId planDoc s = (r, s') \<Longrightarrow> disk_tracks D s \<Longrightarrow> disk_tracks D s'"
  unfolding visuals_stage_def Let_def
  by (auto split: prod.splits sum.splits
      dest!: disk_tracks_callOpenAIJson [where D = D] disk_tracks_save_and_render [where D = D])

lemma disk_tracks_captions_stage:
  "captions_stage env jobId planDoc s = (r, s') \<Longrightarrow> disk_tracks D s \<Longrightarrow> disk_tracks D s'"
  unfolding captions_stage_def Let_def
  by (auto split: prod.splits sum.splits
      dest!: disk_tracks_callOpenAIJson [where D = D] disk_tracks_visuals_stage [where D = D])

lemma disk_tracks_runJob_try:
  "runJob_try env jobId s = (r, s') \<Longrightarrow> disk_tracks D s \<Longrightarrow> disk_tracks D s'"
  unfolding runJob_try_def Let_def
  by (auto split: prod.splits sum.splits
      dest!: disk_tracks_callOpenAIJson [where D = D] disk_tracks_captions_stage [where D = D])

lemma runJob_try_disk:
  "disk (snd (runJob_try env jobId (start w j))) =
     files w \<union> set (written (trace (snd (runJob_try env jobId (start w j)))))"
proof -
  have "disk_tracks (files w) (start w j)"
    by (simp add: disk_tracks_def start_def)
  then have "disk_tracks (files w) (snd (runJob_try env jobId (start w j)))"
    using disk_tracks_runJob_try [of env jobId "start w j"] by (metis prod.collapse)
  then show ?thesis by (simp add: disk_tracks_def)
qed

subsection \<open>A run fails at the first site that fails\<close>

lemma save_and_render_sites:
  assumes run: "save_and_render env jobId planDoc visualsDoc s = (r, s')"
    and plan: "plan_of env = Some planDoc"
    and vis: "parse_visuals env (chat_text env Visuals) = Some visualsDoc"
    and inp: "input (job s) = inp"
  shows "r = first_error env inp
               (At_compile # map At_disk (save_ops jobId) @
                image_sites 0 (image_paths env jobId inp)) \<and>
         effects (trace s') =
           effects (trace s) @
           effects_until env inp
             (At_compile # map At_disk (save_ops jobId) @
              image_sites 0 (image_paths env jobId inp))"
proof -
  define A where "A = map At_disk (save_ops jobId)"
  define B where "B = image_sites 0 (image_paths env jobId inp)"
  define s1 where "s1 = assign (\<lambda>j. j\<lparr>progress := 65\<rparr>) s"
  have comp: "compiled env inp = Some (compile_briefs inp planDoc visualsDoc)"
    by (simp add: compiled_def plan vis)
  have inp1: "input (job s1) = inp" and eff1: "effects (trace s1) = effects (trace s)"
    using inp by (simp_all add: s1_def)
  show ?thesis
  proof (cases "compile_briefs inp planDoc visualsDoc")
    case (Inl e)
    with run inp1 have "r = Some e" "s' = s1"
      by (simp_all add: save_and_render_def Let_def s1_def [symmetric])
    moreover have "site_error env inp At_compile = Some e"
      using comp Inl by simp
    ultimately show ?thesis using eff1 by simp
  next
    case (Inr pv)
    obtain pj vj where pv: "pv = (pj, vj)" by (cases pv)
    have ok: "site_error env inp At_compile = None"
      using comp Inr by simp
    define dir where "dir = path_join (path_join ''outputs'' jobId) ''Editorial_Posts''"
    have paths: "image_paths env jobId inp =
        map (\<lambda>v. path_join dir (visual_id v @ ''.png'')) (editorialOnly pj vj)"
      using comp Inr pv by (simp add: image_paths_def image_path_def dir_def)
    obtain r2 s2 where save: "perform_all env (save_ops jobId) s1 = (r2, s2)"
      by (cases "perform_all env (save_ops jobId) s1")
    from perform_all_sites [OF save, of inp]
    have a1: "first_error env inp A = r2"
      and a2: "effects (trace s2) = effects (trace s) @ effects_until env inp A"
      by (simp_all add: A_def eff1)
    show ?thesis
    proof (cases r2)
      case (Some e)
      with run inp1 Inr pv save have "r = Some e" "s' = s2"
        by (simp_all add: save_and_render_def Let_def s1_def [symmetric])
      with ok a1 a2 Some show ?thesis
        unfolding A_def [symmetric] B_def [symmetric]
        by (simp add: first_error_append effects_until_append)
    next
      case None
      define s3 where "s3 = assign (\<lambda>j. j\<lparr>progress := 75\<rparr>) s2"
      obtain r4 s4 where render:
        "render_images env 0 dir (editorialOnly pj vj) s3 = (r4, s4)"
        by (cases "render_images env 0 dir (editorialOnly pj vj) s3")
      from render_images_sites [OF render, of inp]
      have b1: "first_error env inp B = r4"
        and b2: "effects (trace s4) = effects (trace s2) @ effects_until env inp B"
        by (simp_all add: B_def paths s3_def)
      from run inp1 Inr pv save None render
      have "r = r4" "effects (trace s') = effects (trace s4)"
        by (auto simp: save_and_render_def Let_def s1_def [symmetric] dir_def [symmetric]
            s3_def [symmetric] split: option.splits)
      with ok a1 a2 b1 b2 None show ?thesis
        unfolding A_def [symmetric] B_def [symmetric]
        by (simp add: first_error_append effects_until_append)
    qed
  qed
qed

lemma visuals_stage_sites:
  assumes run: "visuals_stage env jobId planDoc s = (r, s')"
    and plan: "plan_of env = Some planDoc"
    and inp: "input (job s) = inp"
  shows "r = first_error env inp
               (At_text Visuals # At_compile # map At_disk (save_ops jobId) @
                image_sites 0 (image_paths env jobId inp)) \<and>
         effects (trace s') =
           effects (trace s) @
           effects_until env inp
             (At_text Visuals # At_compile # map At_disk (save_ops jobId) @
              image_sites 0 (image_paths env jobId inp))"
proof -
  define T where "T = At_compile # map At_disk (save_ops jobId) @
      image_sites 0 (image_paths env jobId inp)"
  define s1 where "s1 = assign (\<lambda>j. j\<lparr>progress := 55\<rparr>) s"
  obtain rv s2 where call:
    "callOpenAIJson (parse_visuals env) Visuals (chat env Visuals) s1 = (rv, s2)"
    by (cases "callOpenAIJson (parse_visuals env) Visuals (chat env Visuals) s1")
  note v = visuals_call [OF call]
  have inp2: "input (job s2) = inp"
    and eff2: "effects (trace s2) = effects (trace s) @ [Called (ChatCall Visuals)]"
    using inp v(1) by (simp_all add: s1_def)
  show ?thesis
  proof (cases rv)
    case (Inl e)
    with v(2) have "site_error env inp (At_text Visuals) = Some e" by simp
    moreover from run call Inl have "r = Some e" "s' = s2"
      by (simp_all add: visuals_stage_def Let_def s1_def [symmetric])
    ultimately show ?thesis
      unfolding T_def [symmetric] using eff2 by simp
  next
    case (Inr d)
    with v(2) have ok: "site_error env inp (At_text Visuals) = None"
      and vis: "parse_visuals env (chat_text env Visuals) = Some d"
      by simp_all
    from run call Inr have "save_and_render env jobId planDoc d s2 = (r, s')"
      by (simp add: visuals_stage_def Let_def s1_def [symmetric])
    from save_and_render_sites [OF this plan vis inp2] ok eff2 show ?thesis
      unfolding T_def [symmetric] by simp
  qed
qed

lemma captions_stage_sites:
  assumes run: "captions_stage env jobId planDoc0 s = (r, s')"
    and plan: "parse_plan env (chat_text env Plan) = Some planDoc0"
    and inp: "input (job s) = inp"
  shows "r = first_error env inp
               (At_allocation # At_text Captions # At_text Visuals # At_compile #
                map At_disk (save_ops jobId) @ image_sites 0 (image_paths env jobId inp)) \<and>
         effects (trace s') =
           effects (trace s) @
           effects_until env inp
             (At_allocation # At_text Captions # At_text Visuals # At_compile #
              map At_disk (save_ops jobId) @ image_sites 0 (image_paths env jobId inp))"
proof -
  define T where "T = At_text Visuals # At_compile # map At_disk (save_ops jobId) @
      image_sites 0 (image_paths env jobId inp)"
  show ?thesis
  proof (cases "applyMixedMode_doc planDoc0")
    case (Inl e)
    with plan have "site_error env inp At_allocation = Some e"
      by (simp add: allocation_error_def)
    moreover from run Inl have "r = Some e" "s' = s"
      by (simp_all add: captions_stage_def)
    ultimately show ?thesis by simp
  next
    case (Inr planDoc)
    with plan have ok: "site_error env inp At_allocation = None"
      and p: "plan_of env = Some planDoc"
      by (simp_all add: allocation_error_def plan_of_def)
    define s1 where "s1 = assign (\<lambda>j. j\<lparr>progress := 35\<rparr>) s"
    obtain rc s2 where call:
      "callOpenAIJson (parse_captions env) Captions (chat env Captions) s1 = (rc, s2)"
      by (cases "callOpenAIJson (parse_captions env) Captions (chat env Captions) s1")
    note c = captions_call [OF call]
    have inp2: "input (job s2) = inp"
      and eff2: "effects (trace s2) = effects (trace s) @ [Called (ChatCall Captions)]"
      using inp c(1) by (simp_all add: s1_def)
    show ?thesis
    proof (cases rc)
      case (Inl e)
      with c(2) have "site_error env inp (At_text Captions) = Some e" by simp
      moreover from run call Inl Inr have "r = Some e" "s' = s2"
        by (simp_all add: captions_stage_def Let_def s1_def [symmetric])
      ultimately show ?thesis
        unfolding T_def [symmetric] using eff2 ok by simp
    next
      case (Inr d)
      with c(2) have ok2: "site_error env inp (At_text Captions) = None"
        by simp
      from run call Inr \<open>applyMixedMode_doc planDoc0 = Inr planDoc\<close>
      have "visuals_stage env jobId planDoc s2 = (r, s')"
        by (simp add: captions_stage_def Let_def s1_def [symmetric])
      from visuals_stage_sites [OF this p inp2] ok ok2 eff2 show ?thesis
        unfolding T_def [symmetric] by simp
    qed
  qed
qed

lemma runJob_try_sites:
  assumes run: "runJob_try env jobId s = (r, s')" and inp: "input (job s) = inp"
  shows "r = first_error env inp (sites env jobId inp) \<and>
         effects (trace s') = effects (trace s) @ effects_until env inp (sites env jobId inp)"
proof -
  define T where "T = At_allocation # At_text Captions # At_text Visuals # At_compile #
      map At_disk (save_ops jobId) @ image_sites 0 (image_paths env jobId inp)"
  have all: "sites env jobId inp = At_prompt # At_text Plan # T"
    by (simp add: sites_def T_def)
  define s2 where
    "s2 = assign (\<lambda>j. j\<lparr>progress := 10\<rparr>) (assign (\<lambda>j. j\<lparr>status := ''running''\<rparr>) s)"
  have inp2: "input (job s2) = inp" and eff2: "effects (trace s2) = effects (trace s)"
    using inp by (simp_all add: s2_def)
  show ?thesis
  proof (cases "promptPlan inp")
    case (Inl e)
    then have "site_error env inp At_prompt = Some e" by simp
    moreover from run Inl inp inp2 have "r = Some e" "s' = s2"
      by (simp_all add: runJob_try_def Let_def s2_def [symmetric])
    ultimately show ?thesis unfolding all using eff2 by simp
  next
    case (Inr u)
    then have ok: "site_error env inp At_prompt = None" by simp
    obtain rp s3 where call:
      "callOpenAIJson (parse_plan env) Plan (chat env Plan) s2 = (rp, s3)"
      by (cases "callOpenAIJson (parse_plan env) Plan (chat env Plan) s2")
    note c = plan_call [OF call]
    have inp3: "input (job s3) = inp"
      and eff3: "effects (trace s3) = effects (trace s) @ [Called (ChatCall Plan)]"
      using inp2 eff2 c(1) by simp_all
    show ?thesis
    proof (cases rp)
      case (Inl e)
      with c(2) have "site_error env inp (At_text Plan) = Some e" by simp
      moreover from run call Inl Inr inp inp2 have "r = Some e" "s' = s3"
        by (simp_all add: runJob_try_def Let_def s2_def [symmetric])
      ultimately show ?thesis unfolding all using eff3 ok by simp
    next
      case (Inr d)
      with c(2) have ok2: "site_error env inp (At_text Plan) = None"
        and p: "parse_plan env (chat_text env Plan) = Some d"
        by simp_all
      from run call Inr \<open>promptPlan inp = Inr u\<close> inp inp2
      have "captions_stage env jobId d s3 = (r, s')"
        by (simp add: runJob_try_def Let_def s2_def [symmetric])
      from captions_stage_sites [OF this p inp3] ok ok2 eff3 show ?thesis
        unfolding all T_def [symmetric] by simp
    qed
  qed
qed

lemma first_failure:
  assumes "list_all (\<lambda>x. site_error env inp x = None) before"
    and "site_error env inp x = Some e"
  shows "first_error env inp (before @ x # after) = Some e"
    and "effects_until env inp (before @ x # after) =
           concat (map site_effects before) @ failed_effects x"
  using assms by (induction before) simp_all

subsection \<open>Submission\<close>

lemma post_jobs_accepts:
  assumes "fst (post_jobs parse jobId now req w) = Inr resp"
  shows "\<exists>b inp. \<not> upload_refused req \<and> form_body req = Some b \<and>
           parse (input_text (input_json b)) = Some inp \<and>
           resp = Json 200 (JobIdBody jobId) \<and>
           created parse jobId now req w = w\<lparr>jobs := (jobs w)(jobId \<mapsto> new_job jobId inp now)\<rparr>"
  using assms by (auto simp: post_jobs_def created_def Let_def split: option.splits if_splits)

lemma created_job:
  assumes "fst (post_jobs parse jobId now req w) = Inr resp"
  shows "\<exists>inp. jobs (created parse jobId now req w) jobId = Some (new_job jobId inp now)"
  using post_jobs_accepts [OF assms] by auto

subsection \<open>Status and progress over a run\<close>

lemma status_of_run:
  assumes "jobs w jobId = Some j" and "status j = ''queued''"
  shows "(status_changes w jobId (run_trace env jobId w) = [''queued'', ''running'', ''done''] \<and>
          map_option status (final_job env jobId w) = Some ''done'') \<or>
         (status_changes w jobId (run_trace env jobId w) = [''queued'', ''running'', ''error''] \<and>
          map_option status (final_job env jobId w) = Some ''error'')"
proof -
  obtain r s where run: "runJob_try env jobId (start w j) = (r, s)"
    by (cases "runJob_try env jobId (start w j)")
  have empty: "trace (start w j) = []" and j: "job (start w j) = j"
    by (simp_all add: start_def)
  note shape = runJob_try_assigned [OF run empty, unfolded j]
  note last = runJob_try_job [OF run empty]
  note whole = runJob_unfold [OF assms(1) run]
  show ?thesis
  proof (cases r)
    case None
    with shape have "assigned (trace s) = ladder jobId j" by simp
    with None whole last assms show ?thesis
      by (simp add: status_changes_def job_states_def run_trace_def final_job_def run_world_def
          ladder_def)
  next
    case (Some e)
    with shape obtain k where "k \<in> {2, 3, 4, 5, 6}" "assigned (trace s) = take k (ladder jobId j)"
      by auto
    with Some whole last assms show ?thesis
      by (auto simp: status_changes_def job_states_def run_trace_def final_job_def run_world_def
          ladder_def)
  qed
qed

lemma progress_of_run:
  assumes "jobs w jobId = Some j" and "status j = ''queued''" and "progress j = 0"
  shows "let tr = run_trace env jobId w;
             states = job_states w jobId tr;
             seen = visible_states w (run_world env jobId w) jobId tr
         in list_all (\<lambda>x. 0 \<le> progress x \<and> progress x \<le> 100) states \<and>
            sorted (map progress states) \<and>
            list_all (\<lambda>x. status x = ''done'' \<longrightarrow> progress x = 100) states \<and>
            2 \<le> length seen \<and>
            set seen \<subseteq> set states \<and>
            sorted (map progress seen) \<and>
            list_all (\<lambda>x. progress x = 100 \<longrightarrow> status x = ''done'') seen"
proof -
  obtain r s where run: "runJob_try env jobId (start w j) = (r, s)"
    by (cases "runJob_try env jobId (start w j)")
  have empty: "trace (start w j) = []" and j: "job (start w j) = j"
    by (simp_all add: start_def)
  have low: "progress (job (start w j)) \<le> 10"
    using assms(3) by (simp add: start_def)
  note shape = runJob_try_assigned [OF run empty, unfolded j]
  note last = runJob_try_job [OF run empty]
  note whole = runJob_unfold [OF assms(1) run]
  note mono = runJob_try_awaited_sorted [OF run empty low, unfolded j]
  note running = runJob_try_awaited_running [OF run empty]
  note sub = runJob_try_awaited_assigned [OF run empty]
  show ?thesis
  proof (cases r)
    case None
    with shape have a: "assigned (trace s) = ladder jobId j" by simp
    have tr: "run_trace env jobId w = trace s"
      and fin: "jobs (run_world env jobId w) jobId = Some (job s)"
      using None whole by (simp_all add: run_trace_def run_world_def)
    have js: "job s = last (ladder jobId j)" using last a by simp
    have states: "job_states w jobId (trace s) = j # ladder jobId j"
      using assms(1) a by (simp add: job_states_def)
    have seen: "visible_states w (run_world env jobId w) jobId (trace s) = j # awaited (trace s) @ [job s]"
      using assms(1) fin by (simp add: visible_states_def)
    have p1: "list_all (\<lambda>x. 0 \<le> progress x \<and> progress x \<le> 100) (j # ladder jobId j)"
      using assms(3) by (simp add: ladder_def)
    have p2: "sorted (map progress (j # ladder jobId j))"
      using assms(3) by (simp add: ladder_def)
    have p3: "list_all (\<lambda>x. status x = ''done'' \<longrightarrow> progress x = 100) (j # ladder jobId j)"
      using assms(2) by (simp add: ladder_def)
    have p5: "set (j # awaited (trace s) @ [job s]) \<subseteq> set (j # ladder jobId j)"
      using sub a js by (auto simp: ladder_def)
    have p7: "list_all (\<lambda>x. progress x = 100 \<longrightarrow> status x = ''done'') (j # awaited (trace s) @ [job s])"
      using running assms(3) js by (auto simp: list_all_iff ladder_def)
    show ?thesis
      unfolding Let_def tr states seen
      using p1 p2 p3 p5 mono p7 by simp
  next
    case (Some e)
    with shape obtain k where k: "k \<in> {2, 3, 4, 5, 6}" "assigned (trace s) = take k (ladder jobId j)"
      by auto
    let ?e1 = "(job s)\<lparr>status := ''error''\<rparr>"
    let ?e2 = "(job s)\<lparr>status := ''error'',
                      error := Some (if message e = [] then ''Unknown error'' else message e)\<rparr>"
    have tr: "run_trace env jobId w = trace s @ [Assigned ?e1, Assigned ?e2]"
      and fin: "jobs (run_world env jobId w) jobId = Some ?e2"
      using Some whole by (simp_all add: run_trace_def run_world_def)
    have js: "job s = last (take k (ladder jobId j))" using last k by simp
    have states: "job_states w jobId (trace s @ [Assigned ?e1, Assigned ?e2]) =
        j # take k (ladder jobId j) @ [?e1, ?e2]"
      using assms(1) k by (simp add: job_states_def)
    have seen: "visible_states w (run_world env jobId w) jobId (trace s @ [Assigned ?e1, Assigned ?e2]) =
        j # awaited (trace s) @ [?e2]"
      using assms(1) fin by (simp add: visible_states_def)
    have p1: "list_all (\<lambda>x. 0 \<le> progress x \<and> progress x \<le> 100) (j # take k (ladder jobId j) @ [?e1, ?e2])"
      using assms(3) k(1) js by (auto simp: ladder_def)
    have p2: "sorted (map progress (j # take k (ladder jobId j) @ [?e1, ?e2]))"
      using assms(3) k(1) js by (auto simp: ladder_def)
    have p3: "list_all (\<lambda>x. status x = ''done'' \<longrightarrow> progress x = 100) (j # take k (ladder jobId j) @ [?e1, ?e2])"
      using assms(2) k(1) js by (auto simp: ladder_def)
    have p5: "set (j # awaited (trace s) @ [?e2]) \<subseteq> set (j # take k (ladder jobId j) @ [?e1, ?e2])"
      using sub k(2) by auto
    have p6: "sorted (map progress (j # awaited (trace s) @ [?e2]))"
      using mono by (simp add: sorted_append)
    have p7: "list_all (\<lambda>x. progress x = 100 \<longrightarrow> status x = ''done'') (j # awaited (trace s) @ [?e2])"
      using running assms(3) k(1) js by (auto simp: list_all_iff ladder_def)
    show ?thesis
      unfolding Let_def tr states seen
      using p1 p2 p3 p5 p6 p7 by simp
  qed
qed

subsection \<open>The sample run\<close>

lemma sample_editorialOnly:
  "editorialOnly (applyMixedMode plan_five) sample_visuals =
     [\<lparr>visual_id = ''P04''\<rparr>, \<lparr>visual_id = ''P05''\<rparr>]"
  by code_simp

lemma context_text_nonempty: "context_text \<noteq> []"
  by (simp add: context_text_def)

lemma sample_submission:
  "fst (post_jobs sample_parse ''job-1'' 0 sample_request empty_world) =
     Inr (Json 200 (JobIdBody ''job-1''))"
  by (simp add: post_jobs_def sample_parse_def input_text_def sample_request_def
      upload_refused_def context_text_nonempty)

lemma sample_world_job:
  "jobs sample_world ''job-1'' = Some (new_job ''job-1'' (Input sample_context) 0)"
  "files sample_world = {}"
  by (simp_all add: sample_world_def created_def post_jobs_def sample_parse_def input_text_def
      empty_world_def sample_request_def upload_refused_def context_text_nonempty)

lemmas run_defs =
  runJob_try_def captions_stage_def visuals_stage_def save_and_render_def finish_def
  callOpenAIJson_def generateEditorialImage_def promptPlan_def content_text_def start_def
  compile_briefs_def makeDefaultBrandStyle_def save_ops_def output_names_def
  ensureDir_def writeFileSafe_def Let_def

lemma sample_try:
  assumes "input j = Input sample_context"
  shows "fst (runJob_try sample_env ''job-1'' (start w j)) = None"
    and "effects (trace (snd (runJob_try sample_env ''job-1'' (start w j)))) =
      schedule ''job-1'' (map (image_path ''job-1'') [\<lparr>visual_id = ''P04''\<rparr>, \<lparr>visual_id = ''P05''\<rparr>])"
    and "assigned (trace (snd (runJob_try sample_env ''job-1'' (start w j)))) = ladder ''job-1'' j"
    and "awaited (trace (snd (runJob_try sample_env ''job-1'' (start w j)))) =
      [ladder ''job-1'' j ! 1, ladder ''job-1'' j ! 2, ladder ''job-1'' j ! 3,
       ladder ''job-1'' j ! 5, ladder ''job-1'' j ! 5]"
    and "job (snd (runJob_try sample_env ''job-1'' (start w j))) = last (ladder ''job-1'' j)"
  using assms
  by (simp_all add: run_defs sample_env_def sample_plan_parse_def sample_editorialOnly
      sample_context_def schedule_def image_path_def ladder_def)

lemma sample_run:
  "run_error sample_env ''job-1'' sample_world = None"
  "effects (run_trace sample_env ''job-1'' sample_world) =
      schedule ''job-1'' (map (image_path ''job-1'') [\<lparr>visual_id = ''P04''\<rparr>, \<lparr>visual_id = ''P05''\<rparr>])"
  "job_states sample_world ''job-1'' (run_trace sample_env ''job-1'' sample_world) =
      new_job ''job-1'' (Input sample_context) 0 #
      ladder ''job-1'' (new_job ''job-1'' (Input sample_context) 0)"
  "visible_states sample_world (run_world sample_env ''job-1'' sample_world) ''job-1''
       (run_trace sample_env ''job-1'' sample_world) =
     (let l = ladder ''job-1'' (new_job ''job-1'' (Input sample_context) 0)
      in [new_job ''job-1'' (Input sample_context) 0, l ! 1, l ! 2, l ! 3, l ! 5, l ! 5, l ! 8])"
proof -
  let ?j = "new_job ''job-1'' (Input sample_context) 0"
  have inp: "input ?j = Input sample_context" by (simp add: new_job_def)
  obtain r s where run: "runJob_try sample_env ''job-1'' (start sample_world ?j) = (r, s)"
    by (cases "runJob_try sample_env ''job-1'' (start sample_world ?j)")
  note t = sample_try [OF inp, of sample_world, unfolded run, simplified]
  note whole = runJob_unfold [OF sample_world_job(1) run, unfolded t(1), simplified]
  show "run_error sample_env ''job-1'' sample_world = None"
    using whole by (simp add: run_error_def)
  show "effects (run_trace sample_env ''job-1'' sample_world) =
      schedule ''job-1'' (map (image_path ''job-1'') [\<lparr>visual_id = ''P04''\<rparr>, \<lparr>visual_id = ''P05''\<rparr>])"
    using whole t(2) by (simp add: run_trace_def)
  show "job_states sample_world ''job-1'' (run_trace sample_env ''job-1'' sample_world) =
      ?j # ladder ''job-1'' ?j"
    using whole t(3) by (simp add: run_trace_def job_states_def sample_world_job)
  show "visible_states sample_world (run_world sample_env ''job-1'' sample_world) ''job-1''
       (run_trace sample_env ''job-1'' sample_world) =
     (let l = ladder ''job-1'' ?j in [?j, l ! 1, l ! 2, l ! 3, l ! 5, l ! 5, l ! 8])"
    using whole t(4) t(5)
    by (simp add: run_trace_def run_world_def visible_states_def sample_world_job Let_def ladder_def)
qed

subsection \<open>Status and progress\<close>

text \<open>
  Claim C8 (the status state machine). A job that \<open>POST /api/jobs\<close> has created is
  \<open>queued\<close>; over its run the status field takes, in this order, the values \<open>queued\<close>,
  \<open>running\<close> and then exactly one of \<open>done\<close> and \<open>error\<close>, which is the status the run
  leaves in the job table. Nothing changes it afterwards: the run of any other job
  leaves the entry as it is, and a status query writes nothing.
\<close>

theorem job_status_state_machine:
  assumes "fst (post_jobs parse jobId now req w) = Inr resp"
  shows "let w1 = created parse jobId now req w;
             changes = status_changes w1 jobId (run_trace env jobId w1);
             final = map_option status (final_job env jobId w1)
         in map_option status (jobs w1 jobId) = Some ''queued'' \<and>
            (changes = [''queued'', ''running'', ''done''] \<and> final = Some ''done'' \<or>
             changes = [''queued'', ''running'', ''error''] \<and> final = Some ''error'') \<and>
            (\<forall>env' i. i \<noteq> jobId \<longrightarrow>
               jobs (run_world env' i (run_world env jobId w1)) jobId = final_job env jobId w1)"
proof -
  obtain inp where j: "jobs (created parse jobId now req w) jobId = Some (new_job jobId inp now)"
    using created_job [OF assms] by blast
  have q: "status (new_job jobId inp now) = ''queued''"
    by (simp add: new_job_def)
  show ?thesis
    unfolding Let_def
    using status_of_run [OF j q, of env] j q
    by (simp add: runJob_other_job final_job_def)
qed

theorem job_status_state_machine_witness:
  "fst (post_jobs sample_parse ''job-1'' 0 sample_request empty_world) =
     Inr (Json 200 (JobIdBody ''job-1'')) \<and>
   map_option status (jobs sample_world ''job-1'') = Some ''queued'' \<and>
   status_changes sample_world ''job-1'' (run_trace sample_env ''job-1'' sample_world) =
     [''queued'', ''running'', ''done''] \<and>
   map_option status (final_job sample_env ''job-1'' sample_world) = Some ''done''"
proof -
  have changes: "status_changes sample_world ''job-1'' (run_trace sample_env ''job-1'' sample_world) =
     [''queued'', ''running'', ''done'']"
    by (simp add: status_changes_def sample_run(3) ladder_def new_job_def)
  show ?thesis
    using job_status_state_machine [OF sample_submission, of sample_env] changes sample_submission
    by (auto simp: Let_def sample_world_def)
qed

text \<open>
  Claim C7 (progress), as amended. Over the states the job record passes through (the
  record as created, then the record after each assignment) \<open>progress\<close> stays within
  0 and 100 and never decreases, and a record with status \<open>done\<close> has progress 100. The
  states a status query can observe (the record as created, at each suspension of the
  run, and as the run leaves it) are among them, and there \<open>progress\<close> is 100 only when
  the status is \<open>done\<close>.
\<close>

theorem job_progress_monotone:
  assumes "fst (post_jobs parse jobId now req w) = Inr resp"
  shows "let w1 = created parse jobId now req w;
             tr = run_trace env jobId w1;
             states = job_states w1 jobId tr;
             seen = visible_states w1 (run_world env jobId w1) jobId tr
         in list_all (\<lambda>x. 0 \<le> progress x \<and> progress x \<le> 100) states \<and>
            sorted (map progress states) \<and>
            list_all (\<lambda>x. status x = ''done'' \<longrightarrow> progress x = 100) states \<and>
            2 \<le> length seen \<and>
            set seen \<subseteq> set states \<and>
            sorted (map progress seen) \<and>
            list_all (\<lambda>x. progress x = 100 \<longrightarrow> status x = ''done'') seen"
proof -
  obtain inp where j: "jobs (created parse jobId now req w) jobId = Some (new_job jobId inp now)"
    using created_job [OF assms] by blast
  have q: "status (new_job jobId inp now) = ''queued''" and z: "progress (new_job jobId inp now) = 0"
    by (simp_all add: new_job_def)
  show ?thesis
    using progress_of_run [OF j q z, of env] by simp
qed

theorem job_progress_monotone_witness:
  "fst (post_jobs sample_parse ''job-1'' 0 sample_request empty_world) =
     Inr (Json 200 (JobIdBody ''job-1'')) \<and>
   map progress (job_states sample_world ''job-1'' (run_trace sample_env ''job-1'' sample_world)) =
     [0, 0, 10, 35, 55, 65, 75, 100, 100, 100] \<and>
   map (\<lambda>x. (status x, progress x))
     (visible_states sample_world (run_world sample_env ''job-1'' sample_world) ''job-1''
        (run_trace sample_env ''job-1'' sample_world)) =
     [(''queued'', 0), (''running'', 10), (''running'', 35), (''running'', 55),
      (''running'', 75), (''running'', 75), (''done'', 100)] \<and>
   sorted (map progress
     (visible_states sample_world (run_world sample_env ''job-1'' sample_world) ''job-1''
        (run_trace sample_env ''job-1'' sample_world)))"
proof -
  have states: "map progress (job_states sample_world ''job-1'' (run_trace sample_env ''job-1'' sample_world)) =
     [0, 0, 10, 35, 55, 65, 75, 100, 100, 100]"
    by (simp add: sample_run(3) ladder_def new_job_def)
  have seen: "map (\<lambda>x. (status x, progress x))
     (visible_states sample_world (run_world sample_env ''job-1'' sample_world) ''job-1''
        (run_trace sample_env ''job-1'' sample_world)) =
     [(''queued'', 0), (''running'', 10), (''running'', 35), (''running'', 55),
      (''running'', 75), (''running'', 75), (''done'', 100)]"
    by (simp add: sample_run(4) ladder_def new_job_def Let_def)
  show ?thesis
    using job_progress_monotone [OF sample_submission, of sample_env] states seen sample_submission
    by (simp add: Let_def sample_world_def)
qed

text \<open>
  The claim as stated fails between the assignments \<open>job.progress = 100\<close> and
  \<open>job.status = "done"\<close>: the record then holds progress 100 with status \<open>running\<close>.
  No request can be served in between, since the run does not suspend there.
\<close>

theorem job_progress_full_while_running:
  "map (\<lambda>x. (status x, progress x))
     (job_states sample_world ''job-1'' (run_trace sample_env ''job-1'' sample_world)) =
     [(''queued'', 0), (''running'', 0), (''running'', 10), (''running'', 35),
      (''running'', 55), (''running'', 65), (''running'', 75), (''running'', 100),
      (''done'', 100), (''done'', 100)] \<and>
   \<not> list_all (\<lambda>x. progress x = 100 \<longrightarrow> status x = ''done'')
     (job_states sample_world ''job-1'' (run_trace sample_env ''job-1'' sample_world))"
  by (simp add: sample_run(3) ladder_def new_job_def)

subsection \<open>A run that fails\<close>

lemma written_effects: "written tr = writes (effects tr)"
proof (induction tr)
  case Nil
  then show ?case by (simp add: writes_def)
next
  case (Cons x tr)
  then show ?case by (cases x) (simp_all add: writes_def)
qed

lemma runJob_failed:
  assumes "jobs w jobId = Some j" and "fst (runJob_try env jobId (start w j)) = Some e"
  shows "run_error env jobId w = None"
    and "final_job env jobId w =
      Some ((job (snd (runJob_try env jobId (start w j))))
        \<lparr>status := ''error'',
         error := Some (if message e = [] then ''Unknown error'' else message e)\<rparr>)"
    and "files (run_world env jobId w) = disk (snd (runJob_try env jobId (start w j)))"
    and "run_trace env jobId w =
      trace (snd (runJob_try env jobId (start w j))) @
      [Assigned ((job (snd (runJob_try env jobId (start w j))))\<lparr>status := ''error''\<rparr>),
       Assigned ((job (snd (runJob_try env jobId (start w j))))
         \<lparr>status := ''error'',
          error := Some (if message e = [] then ''Unknown error'' else message e)\<rparr>)]"
proof -
  obtain r s where run: "runJob_try env jobId (start w j) = (r, s)"
    by (cases "runJob_try env jobId (start w j)")
  with assms(2) have r: "r = Some e" by simp
  note whole = runJob_unfold [OF assms(1) run, unfolded r, simplified]
  show "run_error env jobId w = None"
    using whole by (simp add: run_error_def)
  show "final_job env jobId w =
      Some ((job (snd (runJob_try env jobId (start w j))))
        \<lparr>status := ''error'',
         error := Some (if message e = [] then ''Unknown error'' else message e)\<rparr>)"
    using whole run by (simp add: final_job_def run_world_def)
  show "files (run_world env jobId w) = disk (snd (runJob_try env jobId (start w j)))"
    using whole run by (simp add: run_world_def)
  show "run_trace env jobId w =
      trace (snd (runJob_try env jobId (start w j))) @
      [Assigned ((job (snd (runJob_try env jobId (start w j))))\<lparr>status := ''error''\<rparr>),
       Assigned ((job (snd (runJob_try env jobId (start w j))))
         \<lparr>status := ''error'',
          error := Some (if message e = [] then ''Unknown error'' else message e)\<rparr>)]"
    using whole run by (simp add: run_trace_def)
qed

text \<open>The run of a job whose first failing site is \<open>x\<close>, with the error \<open>e\<close>.\<close>

lemma runJob_fails_at:
  assumes j: "jobs w jobId = Some j"
    and split: "sites env jobId (input j) = before @ x # after"
    and ok: "list_all (\<lambda>y. site_error env (input j) y = None) before"
    and err: "site_error env (input j) x = Some e"
  shows "run_error env jobId w = None"
    and "map_option status (final_job env jobId w) = Some ''error''"
    and "map_option error (final_job env jobId w) =
           Some (Some (if message e = [] then ''Unknown error'' else message e))"
    and "effects (run_trace env jobId w) = concat (map site_effects before) @ failed_effects x"
    and "files (run_world env jobId w) = files w \<union> set (writes (concat (map site_effects before)))"
proof -
  obtain r s where run: "runJob_try env jobId (start w j) = (r, s)"
    by (cases "runJob_try env jobId (start w j)")
  have inp: "input (job (start w j)) = input j" and empty: "effects (trace (start w j)) = []"
    by (simp_all add: start_def)
  from runJob_try_sites [OF run inp] empty
  have r: "r = first_error env (input j) (before @ x # after)"
    and eff: "effects (trace s) = effects_until env (input j) (before @ x # after)"
    by (simp_all add: split)
  note ff = first_failure [OF ok err, of after]
  have t: "fst (runJob_try env jobId (start w j)) = Some e"
    using run r ff(1) by simp
  note f = runJob_failed [OF j t, unfolded run, simplified]
  have eff': "effects (trace s) = concat (map site_effects before) @ failed_effects x"
    using eff ff(2) by simp
  have none: "writes (failed_effects x) = []"
    by (cases x) (simp_all add: writes_def)
  have wr: "written (trace s) = writes (concat (map site_effects before))"
    unfolding written_effects eff' using none by (simp add: writes_def)
  show "run_error env jobId w = None" by (rule f(1))
  show "map_option status (final_job env jobId w) = Some ''error''"
    using f(2) by simp
  show "map_option error (final_job env jobId w) =
           Some (Some (if message e = [] then ''Unknown error'' else message e))"
    using f(2) by simp
  show "effects (run_trace env jobId w) = concat (map site_effects before) @ failed_effects x"
    using f(4) eff' by simp
  show "files (run_world env jobId w) = files w \<union> set (writes (concat (map site_effects before)))"
    using f(3) runJob_try_disk [of env jobId w j] wr by (simp add: run)
qed

subsection \<open>A response that does not parse\<close>

lemma unparsable_text_error:
  "unparsable env st \<Longrightarrow> text_error env st = Some (parse_failed (chat_text env st))"
  by (auto simp: unparsable_def text_error_def chat_text_def split: sum.splits)

lemma sites_before_text:
  "\<exists>after. sites env jobId inp =
     (At_prompt # concat (map (\<lambda>s. case s of Plan \<Rightarrow> [At_text Plan, At_allocation]
                                      | _ \<Rightarrow> [At_text s]) (stages_before st))) @
     At_text st # after"
  by (cases st) (simp_all add: sites_def)

lemma runJob_unparsable:
  assumes j: "jobs w jobId = Some j"
    and prompt: "promptPlan (input j) = Inr ()"
    and before: "list_all (stage_ok env) (stages_before st)"
    and bad: "unparsable env st"
  shows "map_option status (final_job env jobId w) = Some ''error''"
    and "map_option error (final_job env jobId w) =
           Some (Some (message (parse_failed (chat_text env st))))"
    and "written (run_trace env jobId w) = []"
    and "files (run_world env jobId w) = files w"
proof -
  let ?before = "At_prompt # concat (map (\<lambda>s. case s of Plan \<Rightarrow> [At_text Plan, At_allocation]
                                      | _ \<Rightarrow> [At_text s]) (stages_before st))"
  obtain after where split: "sites env jobId (input j) = ?before @ At_text st # after"
    using sites_before_text by blast
  have ok: "list_all (\<lambda>y. site_error env (input j) y = None) ?before"
    using prompt before by (cases st) (simp_all add: stage_ok_def)
  have err: "site_error env (input j) (At_text st) = Some (parse_failed (chat_text env st))"
    using unparsable_text_error [OF bad] by simp
  note f = runJob_fails_at [OF j split ok err]
  have nothing: "writes (concat (map site_effects ?before)) = []"
    by (cases st) (simp_all add: writes_def)
  have nonempty: "message (parse_failed (chat_text env st)) \<noteq> []"
    by (simp add: parse_failed_def)
  show "map_option status (final_job env jobId w) = Some ''error''" by (rule f(2))
  show "map_option error (final_job env jobId w) =
           Some (Some (message (parse_failed (chat_text env st))))"
    using f(3) nonempty by simp
  show "written (run_trace env jobId w) = []"
    unfolding written_effects f(4) using nothing by (cases st) (simp_all add: writes_def)
  show "files (run_world env jobId w) = files w"
    unfolding f(5) by (cases st) (simp_all add: writes_def)
qed

text \<open>
  Claim C6 (a response that does not parse), as amended. When the response text does not
  parse, \<open>callOpenAIJson\<close> fails with the message \<open>JSON parse failed. First 200 chars:\<close>,
  a line break and the first 200 characters of the text: at most 236 characters, and the
  whole text exactly when it is no longer than 200 characters. When this happens in a
  run, at the plan, captions or visual-brief stage (the stages before it having
  succeeded), the job ends with status \<open>error\<close> and that message, and the run writes
  no file at all.
\<close>

theorem parse_failure_bounded_excerpt:
  "(parse (content_text content) = None \<longrightarrow>
      fst (callOpenAIJson parse st (Inr content) s) = Inl (parse_failed (content_text content))) \<and>
   message (parse_failed text) = ''JSON parse failed. First 200 chars:'' @ [CHR 0x0A] @ take 200 text \<and>
   length (message (parse_failed text)) \<le> 236 \<and>
   (take 200 text = text \<longleftrightarrow> length text \<le> 200) \<and>
   (jobs w jobId = Some j \<and> promptPlan (input j) = Inr () \<and>
    list_all (stage_ok env) (stages_before st') \<and> unparsable env st' \<longrightarrow>
      map_option status (final_job env jobId w) = Some ''error'' \<and>
      map_option error (final_job env jobId w) =
        Some (Some (message (parse_failed (chat_text env st')))) \<and>
      written (run_trace env jobId w) = [] \<and>
      files (run_world env jobId w) = files w)"
proof (intro conjI impI)
  show "fst (callOpenAIJson parse st (Inr content) s) = Inl (parse_failed (content_text content))"
    if "parse (content_text content) = None"
    using that by (simp add: callOpenAIJson_result)
  show "message (parse_failed text) = ''JSON parse failed. First 200 chars:'' @ [CHR 0x0A] @ take 200 text"
    by (simp add: parse_failed_def)
  show "length (message (parse_failed text)) \<le> 236"
    by (simp add: parse_failed_def)
  show "(take 200 text = text) = (length text \<le> 200)"
    by (metis length_take min.absorb_iff2 take_all min.commute)
next
  assume a: "jobs w jobId = Some j \<and> promptPlan (input j) = Inr () \<and>
    list_all (stage_ok env) (stages_before st') \<and> unparsable env st'"
  then have j: "jobs w jobId = Some j" and p: "promptPlan (input j) = Inr ()"
    and b: "list_all (stage_ok env) (stages_before st')" and u: "unparsable env st'"
    by simp_all
  note f = runJob_unparsable [OF j p b u]
  show "map_option status (final_job env jobId w) = Some ''error''" by (rule f(1))
  show "map_option error (final_job env jobId w) =
        Some (Some (message (parse_failed (chat_text env st'))))" by (rule f(2))
  show "written (run_trace env jobId w) = []" by (rule f(3))
  show "files (run_world env jobId w) = files w" by (rule f(4))
qed

theorem parse_failure_bounded_excerpt_witness:
  "sample_plan_parse (content_text (Some ''{'')) = None \<and>
   fst (callOpenAIJson sample_plan_parse Plan (Inr (Some ''{''))
         (start empty_world (new_job ''job-1'' (Input sample_context) 0))) =
     Inl (parse_failed ''{'') \<and>
   jobs sample_world ''job-1'' = Some (new_job ''job-1'' (Input sample_context) 0) \<and>
   promptPlan (input (new_job ''job-1'' (Input sample_context) 0)) = Inr () \<and>
   list_all (stage_ok garbled_env) (stages_before Captions) \<and>
   unparsable garbled_env Captions \<and>
   map_option status (final_job garbled_env ''job-1'' sample_world) = Some ''error'' \<and>
   map_option error (final_job garbled_env ''job-1'' sample_world) =
     Some (Some (''JSON parse failed. First 200 chars:'' @ [CHR 0x0A] @ ''oops'')) \<and>
   written (run_trace garbled_env ''job-1'' sample_world) = [] \<and>
   files (run_world garbled_env ''job-1'' sample_world) = {}"
proof -
  have h1: "sample_plan_parse (content_text (Some ''{'')) = None"
    by (simp add: sample_plan_parse_def content_text_def plan_text_def)
  have h2: "promptPlan (input (new_job ''job-1'' (Input sample_context) 0)) = Inr ()"
    by (simp add: new_job_def sample_context_def promptPlan_def)
  have h3: "list_all (stage_ok garbled_env) (stages_before Captions)"
    by (simp add: stage_ok_def text_error_def allocation_error_def chat_text_def content_text_def
        garbled_env_def sample_env_def parses_def sample_plan_parse_def)
  have h4: "unparsable garbled_env Captions"
    by (simp add: unparsable_def garbled_env_def sample_env_def parses_def content_text_def
        captions_text_def)
  have t: "chat_text garbled_env Captions = ''oops''"
    by (simp add: chat_text_def garbled_env_def sample_env_def content_text_def)
  show ?thesis
    using parse_failure_bounded_excerpt [of sample_plan_parse "Some ''{''" Plan
        "start empty_world (new_job ''job-1'' (Input sample_context) 0)" "''{''" sample_world
        "''job-1''" "new_job ''job-1'' (Input sample_context) 0" garbled_env Captions]
      h1 h2 h3 h4 sample_world_job
    by (auto simp: t content_text_def parse_failed_def)
qed

text \<open>
  The claim as stated (the message never carries the full payload) fails on every
  response of at most 200 characters; here the response is the single character \<open>{\<close>.
\<close>

theorem parse_failure_carries_short_payload:
  "fst (callOpenAIJson sample_plan_parse Plan (Inr (Some ''{''))
         (start empty_world (new_job ''job-1'' (Input sample_context) 0))) =
     Inl (Error (''JSON parse failed. First 200 chars:'' @ [CHR 0x0A] @ ''{'')) \<and>
   take 200 ''{'' = ''{''"
  by (simp add: callOpenAIJson_result sample_plan_parse_def content_text_def parse_failed_def
      plan_text_def)

subsection \<open>The outcome of a run, read off the environment\<close>

lemma run_outcome:
  assumes j: "jobs w jobId = Some j"
  shows "effects (run_trace env jobId w) =
           effects_until env (input j) (sites env jobId (input j))"
    and "map_option status (final_job env jobId w) =
           Some (case first_error env (input j) (sites env jobId (input j)) of
                   None \<Rightarrow> ''done'' | Some e \<Rightarrow> ''error'')"
proof -
  obtain r s where run: "runJob_try env jobId (start w j) = (r, s)"
    by (cases "runJob_try env jobId (start w j)")
  have inp: "input (job (start w j)) = input j" and empty: "trace (start w j) = []"
    by (simp_all add: start_def)
  from runJob_try_sites [OF run inp] empty
  have r: "r = first_error env (input j) (sites env jobId (input j))"
    and eff: "effects (trace s) = effects_until env (input j) (sites env jobId (input j))"
    by simp_all
  note shape = runJob_try_assigned [OF run empty]
  note last = runJob_try_job [OF run empty]
  note whole = runJob_unfold [OF j run]
  show "effects (run_trace env jobId w) =
           effects_until env (input j) (sites env jobId (input j))"
    using whole eff by (cases r) (simp_all add: run_trace_def)
  show "map_option status (final_job env jobId w) =
           Some (case first_error env (input j) (sites env jobId (input j)) of
                   None \<Rightarrow> ''done'' | Some e \<Rightarrow> ''error'')"
  proof (cases r)
    case None
    with shape last have "status (job s) = ''done''" by (simp add: ladder_def)
    moreover from None r have "first_error env (input j) (sites env jobId (input j)) = None"
      by simp
    ultimately show ?thesis using None whole by (simp add: final_job_def run_world_def)
  next
    case (Some e)
    with r have "first_error env (input j) (sites env jobId (input j)) = Some e"
      by simp
    with Some whole show ?thesis by (simp add: final_job_def run_world_def)
  qed
qed

subsection \<open>The routes\<close>






text \<open>
  Nothing else of the context is checked, at submission or later: a campaign of minus
  one posts in no month is accepted, and with the responses of the sample run its job
  ends in \<open>done\<close>.
\<close>

lemma odd_context_runs_to_done:
  "post_jobs sample_parse ''job-3'' 0 \<lparr>uploads = [], form_body = Some \<lparr>input_json = Some odd_text\<rparr>\<rparr>
     empty_world =
     (Inr (Json 200 (JobIdBody ''job-3'')),
      empty_world\<lparr>jobs := (jobs empty_world)(''job-3'' \<mapsto> new_job ''job-3'' (Input odd_context) 0)\<rparr>,
      Some ''job-3'') \<and>
   map_option status
     (final_job sample_env ''job-3''
        (empty_world\<lparr>jobs := (jobs empty_world)
           (''job-3'' \<mapsto> new_job ''job-3'' (Input odd_context) 0)\<rparr>)) = Some ''done''"
proof -
  let ?j = "new_job ''job-3'' (Input odd_context) 0"
  let ?w = "empty_world\<lparr>jobs := (jobs empty_world)(''job-3'' \<mapsto> ?j)\<rparr>"
  have j: "jobs ?w ''job-3'' = Some ?j" and inp: "input ?j = Input odd_context"
    by (simp_all add: new_job_def)
  have ok: "first_error sample_env (Input odd_context)
      (sites sample_env ''job-3'' (Input odd_context)) = None"
    by (simp add: sites_def image_paths_def compiled_def plan_of_def chat_text_def content_text_def
        sample_env_def sample_plan_parse_def compile_briefs_def makeDefaultBrandStyle_def
        odd_context_def sample_editorialOnly save_ops_def output_names_def path_join_def
        image_path_def Let_def promptPlan_def text_error_def parses_def allocation_error_def)
  have "post_jobs sample_parse ''job-3'' 0
      \<lparr>uploads = [], form_body = Some \<lparr>input_json = Some odd_text\<rparr>\<rparr> empty_world =
     (Inr (Json 200 (JobIdBody ''job-3'')), ?w, Some ''job-3'')"
    by (simp add: post_jobs_def upload_refused_def input_text_def sample_parse_def
        context_text_def odd_text_def)
  moreover have "map_option status (final_job sample_env ''job-3'' ?w) = Some ''done''"
    using run_outcome(2) [OF j, of sample_env] ok by (simp add: inp)
  ultimately show ?thesis by blast
qed

subsection \<open>A failing stage\<close>

text \<open>A run that ends in \<open>error\<close> has failed at one of the sites.\<close>

lemma first_error_site:
  "first_error env inp xs = Some e \<Longrightarrow>
     \<exists>before x after. xs = before @ x # after \<and>
       list_all (\<lambda>y. site_error env inp y = None) before \<and> site_error env inp x = Some e"
proof (induction xs)
  case Nil
  then show ?case by simp
next
  case (Cons a xs)
  show ?case
  proof (cases "site_error env inp a")
    case None
    with Cons.prems have "first_error env inp xs = Some e" by simp
    from Cons.IH [OF this] obtain before x after where
      "xs = before @ x # after" "list_all (\<lambda>y. site_error env inp y = None) before"
      "site_error env inp x = Some e"
      by blast
    with None have "a # xs = (a # before) @ x # after \<and>
        list_all (\<lambda>y. site_error env inp y = None) (a # before) \<and> site_error env inp x = Some e"
      by simp
    then show ?thesis by blast
  next
    case (Some e')
    with Cons.prems have "a # xs = [] @ a # xs \<and>
        list_all (\<lambda>y. site_error env inp y = None) [] \<and> site_error env inp a = Some e"
      by simp
    then show ?thesis by blast
  qed
qed

lemma error_has_site:
  assumes "jobs w jobId = Some j"
    and "map_option status (final_job env jobId w) = Some ''error''"
  shows "\<exists>before x after e. sites env jobId (input j) = before @ x # after \<and>
           list_all (\<lambda>y. site_error env (input j) y = None) before \<and>
           site_error env (input j) x = Some e"
proof -
  from run_outcome(2) [OF assms(1), of env] assms(2)
  obtain e where "first_error env (input j) (sites env jobId (input j)) = Some e"
    by (cases "first_error env (input j) (sites env jobId (input j))") simp_all
  from first_error_site [OF this] show ?thesis by blast
qed

text \<open>
  Claim C5 (failure of a stage). The statements of the \<open>try\<close> block that can throw are
  the sites of a run, in the order in which the run comes to them. Whenever one of them
  throws an error \<open>e\<close> and none before it does, whatever the site: the run itself
  returns without an error, so nothing is raised to a caller; the job is left with
  status \<open>error\<close> and with the message of \<open>e\<close> as its \<open>error\<close> (\<open>Unknown error\<close> when that
  message is empty); the run has made the calls and the writes of the sites before the
  failing one, then the failing call if the site is a call, and nothing of any later
  site; and the disk holds every file that was there before the run and every file
  written before the failure.
\<close>

theorem runJob_error_handling:
  assumes "jobs w jobId = Some j"
    and "sites env jobId (input j) = before @ x # after"
    and "list_all (\<lambda>y. site_error env (input j) y = None) before"
    and "site_error env (input j) x = Some e"
  shows "run_error env jobId w = None \<and>
         map_option status (final_job env jobId w) = Some ''error'' \<and>
         map_option error (final_job env jobId w) =
           Some (Some (if message e = [] then ''Unknown error'' else message e)) \<and>
         effects (run_trace env jobId w) = concat (map site_effects before) @ failed_effects x \<and>
         files (run_world env jobId w) =
           files w \<union> set (writes (concat (map site_effects before)))"
  using runJob_fails_at [OF assms] by simp

lemma full_disk_sites:
  "sites full_disk_env ''job-1'' (Input sample_context) =
     [At_prompt, At_text Plan, At_allocation, At_text Captions, At_text Visuals, At_compile,
      At_disk (Make_dir ''outputs/job-1''),
      At_disk (Write_file ''outputs/job-1/content_plan.json'')] @
     At_disk (Write_file ''outputs/job-1/captions.json'') #
     [At_disk (Write_file ''outputs/job-1/editorial_visuals.json''),
      At_disk (Write_file ''outputs/job-1/brand_style.json''),
      At_disk (Write_file ''outputs/job-1/editorial_visuals_compiled.json''),
      At_disk (Write_file ''outputs/job-1/product_model_briefs.json''),
      At_disk (Make_dir ''outputs/job-1/Editorial_Posts''),
      At_request 0 ''outputs/job-1/Editorial_Posts/P04.png'',
      At_store 0 ''outputs/job-1/Editorial_Posts/P04.png'',
      At_request 1 ''outputs/job-1/Editorial_Posts/P05.png'',
      At_store 1 ''outputs/job-1/Editorial_Posts/P05.png'']"
  by (simp add: sites_def image_paths_def compiled_def plan_of_def chat_text_def content_text_def
      full_disk_env_def sample_env_def sample_plan_parse_def compile_briefs_def
      makeDefaultBrandStyle_def sample_context_def sample_editorialOnly save_ops_def
      output_names_def path_join_def image_path_def Let_def)

lemma full_disk_before:
  "list_all (\<lambda>y. site_error full_disk_env (Input sample_context) y = None)
     [At_prompt, At_text Plan, At_allocation, At_text Captions, At_text Visuals, At_compile,
      At_disk (Make_dir ''outputs/job-1''),
      At_disk (Write_file ''outputs/job-1/content_plan.json'')]"
  by (simp add: promptPlan_def text_error_def parses_def allocation_error_def
      compiled_def plan_of_def chat_text_def content_text_def
      full_disk_env_def sample_env_def sample_plan_parse_def compile_briefs_def
      makeDefaultBrandStyle_def sample_context_def)

theorem runJob_error_handling_witness:
  "jobs sample_world ''job-1'' = Some (new_job ''job-1'' (Input sample_context) 0) \<and>
   sites full_disk_env ''job-1'' (Input sample_context) =
     [At_prompt, At_text Plan, At_allocation, At_text Captions, At_text Visuals, At_compile,
      At_disk (Make_dir ''outputs/job-1''),
      At_disk (Write_file ''outputs/job-1/content_plan.json'')] @
     At_disk (Write_file ''outputs/job-1/captions.json'') #
     [At_disk (Write_file ''outputs/job-1/editorial_visuals.json''),
      At_disk (Write_file ''outputs/job-1/brand_style.json''),
      At_disk (Write_file ''outputs/job-1/editorial_visuals_compiled.json''),
      At_disk (Write_file ''outputs/job-1/product_model_briefs.json''),
      At_disk (Make_dir ''outputs/job-1/Editorial_Posts''),
      At_request 0 ''outputs/job-1/Editorial_Posts/P04.png'',
      At_store 0 ''outputs/job-1/Editorial_Posts/P04.png'',
      At_request 1 ''outputs/job-1/Editorial_Posts/P05.png'',
      At_store 1 ''outputs/job-1/Editorial_Posts/P05.png''] \<and>
   list_all (\<lambda>y. site_error full_disk_env (Input sample_context) y = None)
     [At_prompt, At_text Plan, At_allocation, At_text Captions, At_text Visuals, At_compile,
      At_disk (Make_dir ''outputs/job-1''),
      At_disk (Write_file ''outputs/job-1/content_plan.json'')] \<and>
   site_error full_disk_env (Input sample_context)
     (At_disk (Write_file ''outputs/job-1/captions.json'')) =
     Some (Error ''ENOSPC: no space left on device, write'') \<and>
   run_error full_disk_env ''job-1'' sample_world = None \<and>
   map_option status (final_job full_disk_env ''job-1'' sample_world) = Some ''error'' \<and>
   map_option error (final_job full_disk_env ''job-1'' sample_world) =
     Some (Some ''ENOSPC: no space left on device, write'') \<and>
   effects (run_trace full_disk_env ''job-1'' sample_world) =
     [Called (ChatCall Plan), Called (ChatCall Captions), Called (ChatCall Visuals),
      Written ''outputs/job-1/content_plan.json''] \<and>
   files (run_world full_disk_env ''job-1'' sample_world) = {''outputs/job-1/content_plan.json''}"
proof -
  let ?j = "new_job ''job-1'' (Input sample_context) 0"
  have inp: "input ?j = Input sample_context" by (simp add: new_job_def)
  have err: "site_error full_disk_env (Input sample_context)
     (At_disk (Write_file ''outputs/job-1/captions.json'')) =
     Some (Error ''ENOSPC: no space left on device, write'')"
    by (simp add: full_disk_env_def sample_env_def)
  note inst = runJob_error_handling [of sample_world "''job-1''" ?j full_disk_env, unfolded inp,
      OF sample_world_job(1) full_disk_sites full_disk_before err]
  have r: "run_error full_disk_env ''job-1'' sample_world = None"
    and st: "map_option status (final_job full_disk_env ''job-1'' sample_world) = Some ''error''"
    and er: "map_option error (final_job full_disk_env ''job-1'' sample_world) =
       Some (Some ''ENOSPC: no space left on device, write'')"
    using inst by simp_all
  have eff: "effects (run_trace full_disk_env ''job-1'' sample_world) =
     [Called (ChatCall Plan), Called (ChatCall Captions), Called (ChatCall Visuals),
      Written ''outputs/job-1/content_plan.json'']"
    using inst by simp
  have fl: "files (run_world full_disk_env ''job-1'' sample_world) =
      {''outputs/job-1/content_plan.json''}"
    using inst by (simp add: writes_def sample_world_job(2))
  show ?thesis
    using sample_world_job(1) full_disk_sites full_disk_before err r st er eff fl by blast
qed

subsection \<open>The order of calls and writes\<close>

lemma failed_effects_prefix: "prefix (failed_effects x) (site_effects x)"
  by (induction x rule: failed_effects.induct) simp_all

lemma effects_until_prefix:
  "prefix (effects_until env inp xs) (concat (map site_effects xs))"
proof (induction xs)
  case Nil
  then show ?case by simp
next
  case (Cons x xs)
  show ?case
  proof (cases "site_error env inp x")
    case None
    with Cons.IH show ?thesis by simp
  next
    case (Some e)
    have "prefix (failed_effects x) (site_effects x @ concat (map site_effects xs))"
      using failed_effects_prefix [of x] by (rule prefix_prefix)
    with Some show ?thesis by simp
  qed
qed

lemma effects_until_all:
  "first_error env inp xs = None \<Longrightarrow> effects_until env inp xs = concat (map site_effects xs)"
  by (induction xs) (auto split: option.splits)

lemma image_sites_effects:
  "concat (map site_effects (image_sites i ps)) =
     concat (map (\<lambda>p. [Called (ImageCall p), Written p]) ps)"
  by (induction ps arbitrary: i) simp_all

lemma sites_schedule:
  "concat (map site_effects (sites env jobId inp)) = schedule jobId (image_paths env jobId inp)"
  by (simp add: sites_def save_ops_def schedule_def output_names_def image_sites_effects Let_def)

lemma occurs_before_mem: "occurs_before a b xs \<Longrightarrow> b \<in> set xs"
  by (induction xs) auto

lemma occurs_before_prefix:
  "prefix xs ys \<Longrightarrow> occurs_before a b xs \<Longrightarrow> occurs_before a b ys"
proof (induction xs arbitrary: ys)
  case Nil
  then show ?case by simp
next
  case (Cons x xs)
  show ?case
  proof (cases ys)
    case Nil
    with Cons.prems show ?thesis by simp
  next
    case (Cons y ys')
    with Cons.prems have xy: "x = y" and p: "prefix xs ys'" by simp_all
    from p have sub: "set xs \<subseteq> set ys'" by (rule set_mono_prefix)
    from Cons.prems(2) have "(x = a \<and> b \<in> set xs) \<or> occurs_before a b xs" by simp
    then show ?thesis
    proof
      assume "x = a \<and> b \<in> set xs"
      with sub xy Cons show ?thesis by auto
    next
      assume "occurs_before a b xs"
      from Cons.IH [OF p this] Cons show ?thesis by simp
    qed
  qed
qed

lemma schedule_no_write_before_chat:
  "\<not> occurs_before (Written p) (Called (ChatCall st)) (schedule jobId paths)"
proof -
  have "Called (ChatCall st) \<notin> set (concat (map (\<lambda>p. [Called (ImageCall p), Written p]) paths))"
    by auto
  then have "\<not> occurs_before (Written p) (Called (ChatCall st))
      (concat (map (\<lambda>p. [Called (ImageCall p), Written p]) paths))"
    using occurs_before_mem [of "Written p" "Called (ChatCall st)"
        "concat (map (\<lambda>p. [Called (ImageCall p), Written p]) paths)"]
    by auto
  then show ?thesis
    by (auto simp: schedule_def output_names_def)
qed

lemma run_trace_effects:
  "\<exists>paths. prefix (effects (run_trace env jobId w)) (schedule jobId paths) \<and>
     (map_option status (final_job env jobId w) = Some ''done'' \<longrightarrow>
        effects (run_trace env jobId w) = schedule jobId paths)"
proof (cases "jobs w jobId")
  case None
  then have "run_trace env jobId w = []" "final_job env jobId w = None"
    by (simp_all add: run_trace_def final_job_def run_world_def runJob_def)
  then show ?thesis by simp
next
  case (Some j)
  note o = run_outcome [OF Some, of env]
  let ?paths = "image_paths env jobId (input j)"
  have p: "prefix (effects (run_trace env jobId w)) (schedule jobId ?paths)"
    unfolding o(1) sites_schedule [symmetric] by (rule effects_until_prefix)
  have "effects (run_trace env jobId w) = schedule jobId ?paths"
    if "map_option status (final_job env jobId w) = Some ''done''"
  proof -
    from that o(2) have "first_error env (input j) (sites env jobId (input j)) = None"
      by (cases "first_error env (input j) (sites env jobId (input j))") simp_all
    from effects_until_all [OF this] show ?thesis
      unfolding o(1) sites_schedule .
  qed
  with p show ?thesis by blast
qed

lemma sample_final:
  "map_option status (final_job sample_env ''job-1'' sample_world) = Some ''done''"
proof -
  let ?j = "new_job ''job-1'' (Input sample_context) 0"
  have inp: "input ?j = Input sample_context" by (simp add: new_job_def)
  obtain r s where run: "runJob_try sample_env ''job-1'' (start sample_world ?j) = (r, s)"
    by (cases "runJob_try sample_env ''job-1'' (start sample_world ?j)")
  note t = sample_try [OF inp, of sample_world, unfolded run, simplified]
  note whole = runJob_unfold [OF sample_world_job(1) run, unfolded t(1), simplified]
  show ?thesis
    using whole t(5) by (simp add: final_job_def run_world_def ladder_def)
qed

text \<open>
  Claim C4 (order of the stages), as amended. The external calls and file writes of a run
  follow one fixed order, each after the one before it has returned: the plan call,
  the captions call, the visual-brief call, then the six JSON artifacts in one block,
  then for each editorial post its image request followed by its image file. A run
  that fails stops somewhere along this order, a run that ends in \<open>done\<close> goes through
  all of it. So the stages are sequential, but no artifact is written between the text
  stages: no file is written before any of the three text-generation calls.
\<close>

theorem stage_order:
  "(\<exists>paths. prefix (effects (run_trace env jobId w)) (schedule jobId paths) \<and>
      (map_option status (final_job env jobId w) = Some ''done'' \<longrightarrow>
         effects (run_trace env jobId w) = schedule jobId paths)) \<and>
   (\<forall>p st. \<not> occurs_before (Written p) (Called (ChatCall st)) (effects (run_trace env jobId w)))"
proof
  show "\<exists>paths. prefix (effects (run_trace env jobId w)) (schedule jobId paths) \<and>
      (map_option status (final_job env jobId w) = Some ''done'' \<longrightarrow>
         effects (run_trace env jobId w) = schedule jobId paths)"
    by (rule run_trace_effects)
  show "\<forall>p st. \<not> occurs_before (Written p) (Called (ChatCall st)) (effects (run_trace env jobId w))"
  proof (intro allI notI)
    fix p st
    assume o: "occurs_before (Written p) (Called (ChatCall st)) (effects (run_trace env jobId w))"
    from run_trace_effects [of env jobId w] obtain paths where
      "prefix (effects (run_trace env jobId w)) (schedule jobId paths)" by blast
    from occurs_before_prefix [OF this o] schedule_no_write_before_chat
    show False by simp
  qed
qed

theorem stage_order_witness:
  "map_option status (final_job sample_env ''job-1'' sample_world) = Some ''done'' \<and>
   effects (run_trace sample_env ''job-1'' sample_world) =
     [Called (ChatCall Plan), Called (ChatCall Captions), Called (ChatCall Visuals),
      Written ''outputs/job-1/content_plan.json'', Written ''outputs/job-1/captions.json'',
      Written ''outputs/job-1/editorial_visuals.json'', Written ''outputs/job-1/brand_style.json'',
      Written ''outputs/job-1/editorial_visuals_compiled.json'',
      Written ''outputs/job-1/product_model_briefs.json'',
      Called (ImageCall ''outputs/job-1/Editorial_Posts/P04.png''),
      Written ''outputs/job-1/Editorial_Posts/P04.png'',
      Called (ImageCall ''outputs/job-1/Editorial_Posts/P05.png''),
      Written ''outputs/job-1/Editorial_Posts/P05.png''] \<and>
   \<not> occurs_before (Written ''outputs/job-1/content_plan.json'') (Called (ChatCall Visuals))
       (effects (run_trace sample_env ''job-1'' sample_world))"
proof -
  have eff: "effects (run_trace sample_env ''job-1'' sample_world) =
     [Called (ChatCall Plan), Called (ChatCall Captions), Called (ChatCall Visuals),
      Written ''outputs/job-1/content_plan.json'', Written ''outputs/job-1/captions.json'',
      Written ''outputs/job-1/editorial_visuals.json'', Written ''outputs/job-1/brand_style.json'',
      Written ''outputs/job-1/editorial_visuals_compiled.json'',
      Written ''outputs/job-1/product_model_briefs.json'',
      Called (ImageCall ''outputs/job-1/Editorial_Posts/P04.png''),
      Written ''outputs/job-1/Editorial_Posts/P04.png'',
      Called (ImageCall ''outputs/job-1/Editorial_Posts/P05.png''),
      Written ''outputs/job-1/Editorial_Posts/P05.png'']"
    by (simp add: sample_run(2) schedule_def output_names_def image_path_def path_join_def)
  show ?thesis
    using stage_order [of sample_env "''job-1''" sample_world] sample_final eff
    by blast
qed

text \<open>
  The claim as stated fails on every run that reaches the captions stage: the captions
  call is made before \<open>content_plan.json\<close> is written, and the visual-brief call before
  \<open>captions.json\<close> is written.
\<close>

theorem captions_call_precedes_plan_write:
  "occurs_before (Called (ChatCall Captions)) (Written ''outputs/job-1/content_plan.json'')
     (effects (run_trace sample_env ''job-1'' sample_world)) \<and>
   \<not> occurs_before (Written ''outputs/job-1/content_plan.json'') (Called (ChatCall Captions))
     (effects (run_trace sample_env ''job-1'' sample_world)) \<and>
   occurs_before (Called (ChatCall Visuals)) (Written ''outputs/job-1/captions.json'')
     (effects (run_trace sample_env ''job-1'' sample_world)) \<and>
   \<not> occurs_before (Written ''outputs/job-1/captions.json'') (Called (ChatCall Visuals))
     (effects (run_trace sample_env ''job-1'' sample_world))"
  by (simp add: sample_run(2) schedule_def output_names_def image_path_def path_join_def)

end
